theory Spec2Isabelle
  imports Complex_Main "HOL-Library.Sublist" "HOL-Library.AList"
begin

section \<open>Strings\<close>

text \<open>
  A JavaScript string is modelled as a \<^typ>\<open>string\<close> holding its UTF-8 bytes. The
  operations the program applies to strings (concatenation, equality, \<^verbatim>\<open>includes('_')\<close>,
  \<^verbatim>\<open>split('_')\<close>, \<^verbatim>\<open>join('_')\<close>, \<^verbatim>\<open>trim()\<close>, the test for the empty string) act on
  whole characters and commute with the encoding. No definition below depends on the
  length of a string.
\<close>

text \<open>\<^verbatim>\<open>s.split(sep)\<close> for a one-character separator: never the empty list.\<close>

fun split_js :: "char \<Rightarrow> string \<Rightarrow> string list" where
  "split_js sep [] = [[]]"
| "split_js sep (c # cs) =
     (if c = sep then [] # split_js sep cs
      else (case split_js sep cs of
              [] \<Rightarrow> [[c]]
            | p # ps \<Rightarrow> (c # p) # ps))"

text \<open>\<^verbatim>\<open>parts.join(sep)\<close>.\<close>

fun join_js :: "char \<Rightarrow> string list \<Rightarrow> string" where
  "join_js sep [] = []"
| "join_js sep [p] = p"
| "join_js sep (p # q # ps) = p @ sep # join_js sep (q # ps)"

text \<open>
  The white space and line terminator characters of ECMAScript, each by its UTF-8 bytes:
  U+0009 to U+000D, U+0020, U+00A0, U+1680, U+2000 to U+200A, U+2028, U+2029, U+202F,
  U+205F, U+3000, U+FEFF. \<^verbatim>\<open>trim()\<close> removes them at both ends.
\<close>

definition js_whitespace :: "string list" where
  "js_whitespace =
     [[CHR 0x09], [CHR 0x0A], [CHR 0x0B], [CHR 0x0C], [CHR 0x0D], [CHR 0x20],
      [CHR 0xC2, CHR 0xA0], [CHR 0xE1, CHR 0x9A, CHR 0x80],
      [CHR 0xE2, CHR 0x80, CHR 0x80], [CHR 0xE2, CHR 0x80, CHR 0x81],
      [CHR 0xE2, CHR 0x80, CHR 0x82], [CHR 0xE2, CHR 0x80, CHR 0x83],
      [CHR 0xE2, CHR 0x80, CHR 0x84], [CHR 0xE2, CHR 0x80, CHR 0x85],
      [CHR 0xE2, CHR 0x80, CHR 0x86], [CHR 0xE2, CHR 0x80, CHR 0x87],
      [CHR 0xE2, CHR 0x80, CHR 0x88], [CHR 0xE2, CHR 0x80, CHR 0x89],
      [CHR 0xE2, CHR 0x80, CHR 0x8A], [CHR 0xE2, CHR 0x80, CHR 0xA8],
      [CHR 0xE2, CHR 0x80, CHR 0xA9], [CHR 0xE2, CHR 0x80, CHR 0xAF],
      [CHR 0xE2, CHR 0x81, CHR 0x9F], [CHR 0xE3, CHR 0x80, CHR 0x80],
      [CHR 0xEF, CHR 0xBB, CHR 0xBF]]"

function strip_leading :: "string list \<Rightarrow> string \<Rightarrow> string" where
  "strip_leading ws s =
     (case find (\<lambda>w. w \<noteq> [] \<and> prefix w s) ws of
        None \<Rightarrow> s
      | Some w \<Rightarrow> strip_leading ws (drop (length w) s))"
  by pat_completeness auto
termination
proof (relation "measure (\<lambda>(ws, s). length s)")
  show "wf (measure (\<lambda>(ws, s). length s))" by simp
next
  fix ws :: "string list" and s w :: string
  assume "find (\<lambda>w. w \<noteq> [] \<and> prefix w s) ws = Some w"
  then have "w \<noteq> []" and "prefix w s" by (auto simp: find_Some_iff)
  then have "s \<noteq> []" by auto
  with \<open>w \<noteq> []\<close> show "((ws, drop (length w) s), (ws, s)) \<in> measure (\<lambda>(ws, s). length s)"
    by simp
qed

declare strip_leading.simps [simp del]

definition trim_js :: "string \<Rightarrow> string" where
  "trim_js s = rev (strip_leading (map rev js_whitespace) (rev (strip_leading js_whitespace s)))"

section \<open>Values\<close>

text \<open>
  Values that arrive as parsed JSON (configuration files, tool arguments, tool results).
  \<open>JObj\<close> lists the own properties of an object in enumeration order, with distinct keys;
  a number is only ever tested for being zero.
\<close>

datatype json =
    JNull
  | JBool bool
  | JNum rat
  | JStr string
  | JArr "json list"
  | JObj "(string \<times> json) list"

text \<open>Truthiness (\<^verbatim>\<open>!x\<close> is its negation) and \<^verbatim>\<open>typeof\<close>.\<close>

fun truthy :: "json \<Rightarrow> bool" where
  "truthy JNull = False"
| "truthy (JBool b) = b"
| "truthy (JNum n) = (n \<noteq> 0)"
| "truthy (JStr s) = (s \<noteq> [])"
| "truthy (JArr xs) = True"
| "truthy (JObj kvs) = True"

fun typeof :: "json \<Rightarrow> string" where
  "typeof JNull = ''object''"
| "typeof (JBool b) = ''boolean''"
| "typeof (JNum n) = ''number''"
| "typeof (JStr s) = ''string''"
| "typeof (JArr xs) = ''object''"
| "typeof (JObj kvs) = ''object''"

text \<open>
  Reading a property by one of the fixed names \<^verbatim>\<open>mcpServers\<close>, \<^verbatim>\<open>disabled\<close> and
  \<^verbatim>\<open>tools\<close> from a value other than \<^verbatim>\<open>null\<close>: only an object can have it; \<open>None\<close> is
  \<^verbatim>\<open>undefined\<close>.
\<close>

definition property :: "string \<Rightarrow> json \<Rightarrow> json option" where
  "property k v = (case v of JObj kvs \<Rightarrow> map_of kvs k | _ \<Rightarrow> None)"

definition truthy_opt :: "json option \<Rightarrow> bool" where
  "truthy_opt v = (case v of None \<Rightarrow> False | Some j \<Rightarrow> truthy j)"

text \<open>
  \<^verbatim>\<open>Object.keys(v).length\<close> where \<open>v\<close> is truthy with \<^verbatim>\<open>typeof v === 'object'\<close>, that is
  an object or an array (whose keys are its indices).
\<close>

fun own_key_count :: "json \<Rightarrow> nat" where
  "own_key_count (JObj kvs) = length kvs"
| "own_key_count (JArr xs) = length xs"
| "own_key_count v = 0"

text \<open>An exception, by the kind and message of the error object.\<close>

datatype error = TypeError string | Error string

definition error_message :: "error \<Rightarrow> string" where
  "error_message e = (case e of TypeError m \<Rightarrow> m | Error m \<Rightarrow> m)"

subsection \<open>Numbers from strings\<close>

text \<open>
  \<^verbatim>\<open>Number(s)\<close> on a string, following the StringNumericLiteral grammar: surrounding white
  space is dropped, the empty string is zero, then a hexadecimal, octal or binary literal
  without sign, or a decimal literal with optional sign, fraction and exponent, or
  \<^verbatim>\<open>Infinity\<close>; anything else is \<^verbatim>\<open>NaN\<close>. It never throws. \<open>Finite\<close> carries the exact
  value of the literal: the rounding to a double, and the sign of a negative zero, are not
  modelled.
\<close>

datatype js_number = NaN | Finite rat | Infinity bool

definition digit_value :: "string \<Rightarrow> char \<Rightarrow> nat option" where
  "digit_value alphabet c =
     (if c \<in> set alphabet then Some (length (takeWhile (\<lambda>d. d \<noteq> c) alphabet)) else None)"

definition digits_value :: "nat \<Rightarrow> (char \<Rightarrow> nat option) \<Rightarrow> string \<Rightarrow> nat option" where
  "digits_value base digit ds =
     (if ds = [] \<or> (\<exists>c \<in> set ds. digit c = None) then None
      else Some (foldl (\<lambda>n c. base * n + the (digit c)) 0 ds))"

definition decimal_digit :: "char \<Rightarrow> nat option" where
  "decimal_digit = digit_value ''0123456789''"

definition hex_digit :: "char \<Rightarrow> nat option" where
  "hex_digit c =
     (case digit_value ''0123456789abcdef'' c of
        Some n \<Rightarrow> Some n
      | None \<Rightarrow> map_option (\<lambda>n. n + 10) (digit_value ''ABCDEF'' c))"

definition power_of_ten :: "int \<Rightarrow> rat" where
  "power_of_ten e = (if 0 \<le> e then 10 ^ nat e else 1 / 10 ^ nat (- e))"

definition exponent_part :: "string \<Rightarrow> int option" where
  "exponent_part s =
     (case s of
        [] \<Rightarrow> Some 0
      | c # r \<Rightarrow>
          if c = CHR ''e'' \<or> c = CHR ''E''
          then (case r of
                  [] \<Rightarrow> None
                | sg # ds \<Rightarrow>
                    if sg = CHR ''-'' then map_option (\<lambda>n. - int n) (digits_value 10 decimal_digit ds)
                    else if sg = CHR ''+'' then map_option int (digits_value 10 decimal_digit ds)
                    else map_option int (digits_value 10 decimal_digit r))
          else None)"

definition unsigned_decimal :: "string \<Rightarrow> js_number" where
  "unsigned_decimal s =
     (if s = ''Infinity'' then Infinity True
      else
        (let ip = takeWhile (\<lambda>c. decimal_digit c \<noteq> None) s;
             r = dropWhile (\<lambda>c. decimal_digit c \<noteq> None) s;
             fp = (case r of c # r' \<Rightarrow> if c = CHR ''.'' then takeWhile (\<lambda>c. decimal_digit c \<noteq> None) r' else [] | [] \<Rightarrow> []);
             ex = (case r of c # r' \<Rightarrow> if c = CHR ''.'' then dropWhile (\<lambda>c. decimal_digit c \<noteq> None) r' else r | [] \<Rightarrow> [])
         in if ip = [] \<and> fp = [] then NaN
            else (case exponent_part ex of
                    None \<Rightarrow> NaN
                  | Some e \<Rightarrow>
                      Finite ((of_nat (foldl (\<lambda>n c. 10 * n + the (decimal_digit c)) 0 (ip @ fp)))
                              * power_of_ten (e - int (length fp))))))"

definition negate :: "js_number \<Rightarrow> js_number" where
  "negate x = (case x of NaN \<Rightarrow> NaN | Finite q \<Rightarrow> Finite (- q) | Infinity b \<Rightarrow> Infinity (\<not> b))"

definition radix_literal :: "string \<Rightarrow> js_number option" where
  "radix_literal s =
     (case s of
        z # x # ds \<Rightarrow>
          if z \<noteq> CHR ''0'' then None
          else if x = CHR ''x'' \<or> x = CHR ''X''
          then Some (case digits_value 16 hex_digit ds of None \<Rightarrow> NaN | Some n \<Rightarrow> Finite (of_nat n))
          else if x = CHR ''o'' \<or> x = CHR ''O''
          then Some (case digits_value 8 (digit_value ''01234567'') ds of None \<Rightarrow> NaN | Some n \<Rightarrow> Finite (of_nat n))
          else if x = CHR ''b'' \<or> x = CHR ''B''
          then Some (case digits_value 2 (digit_value ''01'') ds of None \<Rightarrow> NaN | Some n \<Rightarrow> Finite (of_nat n))
          else None
      | _ \<Rightarrow> None)"

definition Number_js :: "string \<Rightarrow> js_number" where
  "Number_js s =
     (let t = trim_js s
      in if t = [] then Finite 0
         else (case radix_literal t of
                 Some n \<Rightarrow> n
               | None \<Rightarrow>
                   (case t of
                      c # r \<Rightarrow>
                        if c = CHR ''-'' then negate (unsigned_decimal r)
                        else if c = CHR ''+'' then unsigned_decimal r
                        else unsigned_decimal t
                    | [] \<Rightarrow> Finite 0)))"

section \<open>The remote collaborator (api.js)\<close>

text \<open>
  A form value as sent to a tool: the field's text, a checkbox state, the result of
  \<^verbatim>\<open>Number\<close>, or parsed JSON.
\<close>

datatype form_value =
    Text string
  | Checked bool
  | Numeric js_number
  | Parsed json

text \<open>
  Every method of \<^verbatim>\<open>mcpApi\<close> used here makes exactly one HTTP request and nothing else
  before it. The model logs the calls and takes each reply as an argument of the operation
  that awaits it: the body of a fulfilled promise, or the message of the error it was
  rejected with.
\<close>

datatype api_call =
    Connect string
  | Connect_all
  | Call_tool string string "(string \<times> form_value) list"
  | Ai_process string

datatype connect_reply =
    Connect_result bool string
  | Connect_failed string

datatype connect_all_reply =
    Connect_all_result bool string "string list option"
  | Connect_all_failed string

datatype call_reply =
    Call_result bool "json option" "string option"
  | Call_failed string

section \<open>Folding an orchestration response (providers.js, processAiWithToolsResponse)\<close>

text \<open>
  A step of the orchestration response is tagged by its \<^verbatim>\<open>type\<close> field. A step whose type
  is none of \<^verbatim>\<open>response\<close>, \<^verbatim>\<open>tool_call\<close>, \<^verbatim>\<open>tool_result\<close> falls through the
  \<^verbatim>\<open>if\<close> chain and is ignored.
\<close>

datatype step =
    Response string
  | Tool_call string json
  | Tool_result string
  | Other_step string

record used_tool =
  name :: string
  server :: string
  args :: json

record ai_result =
  response :: "string option"
  steps :: "step list option"

record processed =
  processedResponse :: string
  usedTools :: "used_tool list"

text \<open>
  The entry pushed for a tool identifier (lines 1430 to 1444): server name empty and tool
  name the whole identifier, unless the identifier includes an underscore; then
  \<^verbatim>\<open>parts[0]\<close> and \<^verbatim>\<open>parts.slice(1).join('_')\<close>.
\<close>

definition resolve_tool :: "string \<Rightarrow> json \<Rightarrow> used_tool" where
  "resolve_tool tool a =
     (if CHR ''_'' \<in> set tool
      then (let parts = split_js CHR ''_'' tool
            in \<lparr>name = join_js CHR ''_'' (tl parts), server = hd parts, args = a\<rparr>)
      else \<lparr>name = tool, server = [], args = a\<rparr>)"

text \<open>
  The two template strings of the loop. The source text has CJK labels; they are given here
  by their UTF-8 bytes: U+4F7F U+7528 U+5DE5 U+5177 (``tool used'') and U+7ED3 U+679C
  (``result'').
\<close>

definition label_tool_used :: string where
  "label_tool_used =
     [CHR 0xE4, CHR 0xBD, CHR 0xBF, CHR 0xE7, CHR 0x94, CHR 0xA8,
      CHR 0xE5, CHR 0xB7, CHR 0xA5, CHR 0xE5, CHR 0x85, CHR 0xB7]"

definition label_result :: string where
  "label_result = [CHR 0xE7, CHR 0xBB, CHR 0x93, CHR 0xE6, CHR 0x9E, CHR 0x9C]"

definition tool_call_block :: "string \<Rightarrow> string" where
  "tool_call_block tool =
     [CHR 0x0A, CHR 0x0A] @ ''['' @ label_tool_used @ '': '' @ tool @ '']'' @ [CHR 0x0A]"

definition tool_result_block :: "string \<Rightarrow> string" where
  "tool_result_block c =
     [CHR 0x0A] @ label_result @ '': '' @ c @ [CHR 0x0A, CHR 0x0A]"

text \<open>
  One iteration of the \<^verbatim>\<open>for\<close> loop over the steps, on the pair of the accumulated
  \<^verbatim>\<open>formattedResponse\<close> and \<^verbatim>\<open>usedTools\<close>. The presence test compares the stored
  \<^verbatim>\<open>name\<close> of each entry with the step's whole identifier, as the source does.
\<close>

fun process_step :: "string \<times> used_tool list \<Rightarrow> step \<Rightarrow> string \<times> used_tool list" where
  "process_step (formatted, used) (Response c) = (formatted @ c, used)"
| "process_step (formatted, used) (Tool_call tool a) =
     (formatted @ tool_call_block tool,
      if \<not> list_ex (\<lambda>t. name t = tool) used then used @ [resolve_tool tool a] else used)"
| "process_step (formatted, used) (Tool_result c) = (formatted @ tool_result_block c, used)"
| "process_step (formatted, used) (Other_step ty) = (formatted, used)"

fun process_steps :: "string \<times> used_tool list \<Rightarrow> step list \<Rightarrow> string \<times> used_tool list" where
  "process_steps acc [] = acc"
| "process_steps acc (s # ss) = process_steps (process_step acc s) ss"

text \<open>\<^verbatim>\<open>x || 'No response received'\<close> for an optional string: the empty string is falsy.\<close>

definition or_no_response :: "string option \<Rightarrow> string" where
  "or_no_response r =
     (case r of None \<Rightarrow> ''No response received''
      | Some s \<Rightarrow> if s = [] then ''No response received'' else s)"

text \<open>
  The whole function. A \<^verbatim>\<open>null\<close> result passes the first test and then fails on
  \<^verbatim>\<open>result.response\<close>; an absent \<^verbatim>\<open>steps\<close> field gives the plain response; an empty
  step array is truthy and runs the (empty) loop.
\<close>

definition processAiWithToolsResponse :: "ai_result option \<Rightarrow> error + processed" where
  "processAiWithToolsResponse result =
     (case result of
        None \<Rightarrow> Inl (TypeError ''Cannot read properties of null'')
      | Some r \<Rightarrow>
          (case steps r of
             None \<Rightarrow> Inr \<lparr>processedResponse = or_no_response (response r), usedTools = []\<rparr>
           | Some ss \<Rightarrow>
               (let (formatted, used) = process_steps ([], []) ss
                in Inr \<lparr>processedResponse =
                          (if formatted \<noteq> [] then formatted else or_no_response (response r)),
                        usedTools = used\<rparr>)))"


section \<open>The chat application (providers.js, class MCPClientApp)\<close>

record transcript_entry =
  role :: string
  content :: string
  entry_usedTools :: "used_tool list"
  timestamp :: string

text \<open>
  What \<^verbatim>\<open>localStorage\<close> holds under the chat history key: nothing, text that
  \<^verbatim>\<open>JSON.parse\<close> rejects, or the serialised list of entries.
\<close>

datatype saved_history = Absent | Corrupt | Saved "transcript_entry list"

text \<open>
  The state of the application object. Of the page elements found by \<^verbatim>\<open>getElements\<close>
  the model keeps those the operations below test or change, \<open>None\<close> for an element that
  is not in the page: the text of the input box, the \<^verbatim>\<open>disabled\<close> flag of the send
  button, whether the processing indicator is displayed, and the messages shown in the chat
  container (role, content and the tool names of the badge). \<open>notifications\<close> is the
  sequence of calls of \<^verbatim>\<open>showNotification\<close> (message and type), \<open>api_calls\<close> the requests
  made through \<^verbatim>\<open>mcpApi\<close>. \<open>mcpApi_keys\<close> is \<open>None\<close> when \<^verbatim>\<open>window.mcpApi\<close> is absent
  and otherwise its table of API keys; \<open>stored_api_keys\<close> is the table in
  \<^verbatim>\<open>localStorage\<close>.
\<close>

record app =
  chatHistory :: "transcript_entry list"
  currentProvider :: string
  currentModel :: string
  isProcessing :: bool
  userInput :: "string option"
  sendButton :: "bool option"
  processingIndicator :: "bool option"
  chatContainer :: "(string \<times> string \<times> string list) list option"
  notifications :: "(string \<times> string) list"
  api_calls :: "api_call list"
  mcpApi_keys :: "(string \<rightharpoonup> string) option"
  stored_api_keys :: "string \<rightharpoonup> string"
  stored_chat_history :: saved_history

text \<open>
  The constructor, in a browser where \<^verbatim>\<open>window.mcpApi\<close> and \<^verbatim>\<open>localStorage\<close> are as
  given.
\<close>

definition new_MCPClientApp ::
  "(string \<rightharpoonup> string) option \<Rightarrow> (string \<rightharpoonup> string) \<Rightarrow> saved_history \<Rightarrow> app" where
  "new_MCPClientApp keys stored_keys stored_history =
     \<lparr>chatHistory = [], currentProvider = ''openai'', currentModel = [], isProcessing = False,
      userInput = None, sendButton = None, processingIndicator = None, chatContainer = None,
      notifications = [], api_calls = [], mcpApi_keys = keys, stored_api_keys = stored_keys,
      stored_chat_history = stored_history\<rparr>"

definition showNotification :: "string \<Rightarrow> string \<Rightarrow> app \<Rightarrow> app" where
  "showNotification message type s = s\<lparr>notifications := notifications s @ [(message, type)]\<rparr>"

text \<open>
  \<^verbatim>\<open>formatMessage\<close> turns the content into markup, which the model does not keep, and
  then collects the tool names of the registry's configuration to highlight them. That part
  runs when \<^verbatim>\<open>window.mcpTools\<close>, its \<^verbatim>\<open>config\<close> and the \<^verbatim>\<open>mcpServers\<close> of it are
  truthy, and it throws a TypeError
  \<^item> at \<^verbatim>\<open>server.tools\<close> when a server entry is \<^verbatim>\<open>null\<close>,
  \<^item> at \<^verbatim>\<open>server.tools.forEach\<close> when the tools are truthy and not an array,
  \<^item> at \<^verbatim>\<open>tool.name\<close> when a tool is \<^verbatim>\<open>null\<close>,
  \<^item> in the comparison of the sort or at \<^verbatim>\<open>string.replace\<close> in \<^verbatim>\<open>escapeRegExp\<close> when a
    collected name is not a string (a tool that is neither a string nor an object with a
    string \<^verbatim>\<open>name\<close>).
  Whether it throws depends on the configuration only, not on the message. \<open>registry\<close> is
  the configuration of \<^verbatim>\<open>window.mcpTools\<close>, \<open>None\<close> when there is no registry or its
  configuration is \<^verbatim>\<open>null\<close>.
\<close>

definition tool_name_ok :: "json \<Rightarrow> bool" where
  "tool_name_ok tool =
     (case tool of
        JStr s \<Rightarrow> True
      | JObj kvs \<Rightarrow> (case map_of kvs ''name'' of Some (JStr s) \<Rightarrow> True | _ \<Rightarrow> False)
      | _ \<Rightarrow> False)"

definition server_tools_ok :: "json \<Rightarrow> bool" where
  "server_tools_ok entry =
     (case entry of
        JNull \<Rightarrow> False
      | _ \<Rightarrow>
          (case property ''tools'' entry of
             None \<Rightarrow> True
           | Some tools \<Rightarrow>
               if \<not> truthy tools then True
               else (case tools of JArr ts \<Rightarrow> list_all tool_name_ok ts | _ \<Rightarrow> False)))"

text \<open>
  The values of \<^verbatim>\<open>Object.entries(mcpServers)\<close> that can have tools: the properties of an
  object, the elements of an array. (The entries of a string are its characters.)
\<close>

fun entry_values :: "json \<Rightarrow> json list" where
  "entry_values (JObj kvs) = map snd kvs"
| "entry_values (JArr xs) = xs"
| "entry_values v = []"

definition formatMessage_throws :: "json option \<Rightarrow> bool" where
  "formatMessage_throws registry =
     (case registry of
        None \<Rightarrow> False
      | Some cfg \<Rightarrow>
          truthy cfg
          \<and> (case property ''mcpServers'' cfg of
                None \<Rightarrow> False
              | Some servers \<Rightarrow>
                  truthy servers \<and> \<not> list_all server_tools_ok (entry_values servers)))"

text \<open>
  \<^verbatim>\<open>addMessageToChat(role, content, usedTools = [])\<close> at time \<open>now\<close>: nothing without a
  chat container; otherwise \<^verbatim>\<open>formatMessage\<close> is called, which may throw; then the message
  is shown and pushed onto the history.
\<close>

definition addMessageToChat ::
  "json option \<Rightarrow> string \<Rightarrow> string \<Rightarrow> string \<Rightarrow> used_tool list \<Rightarrow> app \<Rightarrow> error + app" where
  "addMessageToChat registry now r c used s =
     (case chatContainer s of
        None \<Rightarrow> Inr s
      | Some shown \<Rightarrow>
          if formatMessage_throws registry
          then Inl (TypeError ''formatMessage'')
          else Inr (s\<lparr>chatContainer :=
                        Some (shown @ [(r, c, if r = ''ai'' then map name used else [])]),
                      chatHistory :=
                        chatHistory s @
                          [\<lparr>role = r, content = c, entry_usedTools = used,
                            timestamp = now\<rparr>]\<rparr>))"

definition saveChatHistory :: "app \<Rightarrow> app" where
  "saveChatHistory s = s\<lparr>stored_chat_history := Saved (chatHistory s)\<rparr>"

text \<open>
  \<^verbatim>\<open>this.chatHistory.forEach(message => this.addMessageToChat(message.role, message.content))\<close>
  inside the \<^verbatim>\<open>try\<close> block of \<^verbatim>\<open>loadChatHistory\<close>. \<^verbatim>\<open>forEach\<close> reads the length once,
  before the first call, and then visits the indices below it that are present at the time
  of the visit, reading each element from the array as it is then. The callback pushes onto
  the same array. An exception of the callback ends the loop; the \<^verbatim>\<open>catch\<close> block only
  logs it, so the result is the state reached by then. \<open>clock k\<close> is the time at visit
  \<open>k\<close>.
\<close>

function forEach_replay ::
  "json option \<Rightarrow> (nat \<Rightarrow> string) \<Rightarrow> nat \<Rightarrow> nat \<Rightarrow> app \<Rightarrow> app" where
  "forEach_replay registry clock k len s =
     (if k < len
      then (if k < length (chatHistory s)
            then (let message = chatHistory s ! k
                  in case addMessageToChat registry (clock k) (role message) (content message)
                            [] s of
                       Inl e \<Rightarrow> s
                     | Inr s' \<Rightarrow> forEach_replay registry clock (Suc k) len s')
            else forEach_replay registry clock (Suc k) len s)
      else s)"
  by pat_completeness auto
termination
  by (relation "measure (\<lambda>(registry, clock, k, len, s). len - k)") auto

declare forEach_replay.simps [simp del]

definition loadChatHistory :: "json option \<Rightarrow> (nat \<Rightarrow> string) \<Rightarrow> app \<Rightarrow> app" where
  "loadChatHistory registry clock s =
     (if chatContainer s = None then s
      else (case stored_chat_history s of
              Absent \<Rightarrow> s
            | Corrupt \<Rightarrow> s
            | Saved h \<Rightarrow>
                (let s' = s\<lparr>chatHistory := h\<rparr>
                 in if length (chatHistory s') > 0
                    then forEach_replay registry clock 0 (length (chatHistory s')) s'
                    else s')))"

text \<open>
  The copies that the replay of a history \<open>h\<close> pushes: role and content of each entry, no
  tools, the time of the visit.
\<close>

definition replayed :: "(nat \<Rightarrow> string) \<Rightarrow> transcript_entry list \<Rightarrow> transcript_entry list" where
  "replayed clock h =
     map (\<lambda>k. \<lparr>role = role (h ! k), content = content (h ! k), entry_usedTools = [],
               timestamp = clock k\<rparr>) [0..<length h]"

text \<open>
  \<^verbatim>\<open>mcpApi.getApiKey(provider)\<close>, or the table in \<^verbatim>\<open>localStorage\<close> when
  \<^verbatim>\<open>window.mcpApi\<close> is absent; the empty string when there is no key.
\<close>

definition api_key_for :: "app \<Rightarrow> string" where
  "api_key_for s =
     (case (case mcpApi_keys s of
              Some keys \<Rightarrow> keys (currentProvider s)
            | None \<Rightarrow> stored_api_keys s (currentProvider s)) of
        None \<Rightarrow> []
      | Some k \<Rightarrow> k)"

text \<open>
  \<^verbatim>\<open>sendMessage\<close> up to its first \<^verbatim>\<open>await\<close>. The second component tells how this part
  ended: the function has returned without starting a turn; or a turn with the given
  message has started and awaits the backend; or \<^verbatim>\<open>addMessageToChat\<close>, which is called
  before the \<^verbatim>\<open>try\<close> block, has thrown, and the function is left with the processing flag
  set.
\<close>

datatype turn_start = Returned | Awaiting string | Thrown error

definition sendMessage_begin :: "json option \<Rightarrow> string \<Rightarrow> app \<Rightarrow> app \<times> turn_start" where
  "sendMessage_begin registry now s =
     (case (userInput s, sendButton s) of
        (Some typed, Some disabled) \<Rightarrow>
          if isProcessing s
          then (showNotification ''Please wait for the current message to finish processing.''
                  ''warning'' s, Returned)
          else (let message = trim_js typed
                in if message = [] then (s, Returned)
                   else if currentProvider s = [] \<or> currentModel s = []
                   then (showNotification ''Please select a provider and model first.''
                           ''error'' s, Returned)
                   else if currentProvider s \<noteq> ''ollama'' \<and> api_key_for s = []
                   then (showNotification
                           ''Please enter an API key for the selected provider.'' ''error'' s,
                         Returned)
                   else (let s1 = s\<lparr>isProcessing := True,
                                     sendButton := Some True,
                                     processingIndicator :=
                                       map_option (\<lambda>shown. True) (processingIndicator s),
                                     userInput := Some []\<rparr>
                         in case addMessageToChat registry now ''user'' message [] s1 of
                              Inl e \<Rightarrow> (s1, Thrown e)
                            | Inr s2 \<Rightarrow> (s2, Awaiting message)))
      | _ \<Rightarrow> (s, Returned))"

text \<open>
  The rest of \<^verbatim>\<open>sendMessage\<close>, resumed with the settled promises: \<open>connect_error\<close> is the
  error message of a rejected \<^verbatim>\<open>connectToAllMcpServers\<close> (its value is not used), \<open>answer\<close>
  the outcome of \<^verbatim>\<open>processWithAI\<close>. Without \<^verbatim>\<open>window.mcpApi\<close> the answer is the simulated
  text. The second component is an exception that leaves the function: the one thrown by
  \<^verbatim>\<open>addMessageToChat\<close> inside the \<^verbatim>\<open>catch\<close> block. The \<^verbatim>\<open>finally\<close> block runs in
  every case.
\<close>

definition simulated_response :: "string \<Rightarrow> app \<Rightarrow> string" where
  "simulated_response message s =
     ''This is a simulated response to: \"'' @ message @ ''\"'' @ [CHR 0x0A, CHR 0x0A]
       @ ''In a real implementation, this would be a response from the '' @ currentProvider s
       @ '' API using the '' @ currentModel s @ '' model.''"

text \<open>The \<^verbatim>\<open>catch\<close> block, for an error with message \<open>m\<close>.\<close>

definition turn_failed :: "json option \<Rightarrow> string \<Rightarrow> string \<Rightarrow> app \<Rightarrow> app \<times> error option" where
  "turn_failed registry now m s =
     (case addMessageToChat registry now ''ai'' (''Error: '' @ m) [] s of
        Inl e \<Rightarrow> (s, Some e)
      | Inr s' \<Rightarrow> (showNotification (''Error: '' @ m) ''error'' (saveChatHistory s'), None))"

text \<open>The end of the \<^verbatim>\<open>try\<close> block: the answer is added and the history saved.\<close>

definition turn_answered ::
  "json option \<Rightarrow> string \<Rightarrow> string \<Rightarrow> used_tool list \<Rightarrow> app \<Rightarrow> app \<times> error option" where
  "turn_answered registry now c used s =
     (case addMessageToChat registry now ''ai'' c used s of
        Inl e \<Rightarrow> turn_failed registry now (error_message e) s
      | Inr s' \<Rightarrow> (saveChatHistory s', None))"

definition turn_finally :: "app \<Rightarrow> app" where
  "turn_finally s =
     s\<lparr>isProcessing := False,
       sendButton := map_option (\<lambda>disabled. False) (sendButton s),
       processingIndicator := map_option (\<lambda>shown. False) (processingIndicator s)\<rparr>"

definition sendMessage_finish ::
  "json option \<Rightarrow> string \<Rightarrow> string option \<Rightarrow> string + ai_result option \<Rightarrow> string \<Rightarrow> app
     \<Rightarrow> app \<times> error option" where
  "sendMessage_finish registry now connect_error answer message s =
     (let (s', thrown) =
            (case mcpApi_keys s of
               None \<Rightarrow> turn_answered registry now (simulated_response message s) [] s
             | Some keys \<Rightarrow>
                 (let s1 = s\<lparr>api_calls := api_calls s @ [Connect_all]\<rparr>
                  in case connect_error of
                       Some m \<Rightarrow> turn_failed registry now m s1
                     | None \<Rightarrow>
                         (let s2 = s1\<lparr>api_calls := api_calls s1 @ [Ai_process message]\<rparr>
                          in case answer of
                               Inl m \<Rightarrow> turn_failed registry now m s2
                             | Inr result \<Rightarrow>
                                 (case processAiWithToolsResponse result of
                                    Inl e \<Rightarrow> turn_failed registry now (error_message e) s2
                                  | Inr p \<Rightarrow>
                                      turn_answered registry now (processedResponse p)
                                        (usedTools p) s2))))
      in (turn_finally s', thrown))"

section \<open>The tool registry and panels (mcp-tools.js, class MCPTools)\<close>

text \<open>
  An input element of a tool form: \<^verbatim>\<open>name\<close>, \<^verbatim>\<open>value\<close>, \<^verbatim>\<open>checked\<close> and
  \<^verbatim>\<open>dataset.type\<close>. A panel is the tool interface element with that form and its result
  container; what the container shows is kept by kind, not as markup.
\<close>

record form_input =
  input_name :: string
  input_value :: string
  input_checked :: bool
  dataset_type :: "string option"

datatype display =
    Hidden
  | Api_unavailable
  | Not_connected
  | Succeeded "json option"
  | Failed string
  | Errored string

record panel =
  inputs :: "form_input list"
  shown :: display

text \<open>
  The state of the registry object. \<open>config\<close> is \<^verbatim>\<open>this.config\<close> (\<open>None\<close> for
  \<^verbatim>\<open>null\<close>), \<open>stored_config\<close> the copy in \<^verbatim>\<open>localStorage\<close>, \<open>toolsList\<close> whether the
  list element was given to \<^verbatim>\<open>init\<close>, \<open>panels\<close> the open tool interfaces by element id.
  \<open>app_present\<close> stands for \<^verbatim>\<open>window.app && window.app.showNotification\<close>;
  \<open>tools_notifications\<close> are the calls made to it, \<open>alerts\<close> the calls of \<^verbatim>\<open>alert\<close>,
  \<open>tools_api_calls\<close> the requests made through \<^verbatim>\<open>mcpApi\<close>.
\<close>

record mcp_tools =
  config :: "json option"
  connectedServers :: "string set"
  hasApiAccess :: bool
  toolsList :: bool
  panels :: "string \<rightharpoonup> panel"
  stored_config :: "json option"
  app_present :: bool
  tools_notifications :: "(string \<times> string) list"
  alerts :: "string list"
  tools_api_calls :: "api_call list"

text \<open>
  The constructor and \<^verbatim>\<open>init\<close>. \<^verbatim>\<open>hasApiAccess\<close> is undefined, hence falsy, until
  \<^verbatim>\<open>init\<close> sets it to \<^verbatim>\<open>!!window.mcpApi\<close>. The saved configuration that \<^verbatim>\<open>init\<close>
  requests arrives in a later task and is not part of this step.
\<close>

definition new_MCPTools :: "json option \<Rightarrow> bool \<Rightarrow> mcp_tools" where
  "new_MCPTools stored app =
     \<lparr>config = None, connectedServers = {}, hasApiAccess = False, toolsList = False,
      panels = Map.empty, stored_config = stored, app_present = app,
      tools_notifications = [], alerts = [], tools_api_calls = []\<rparr>"

definition init :: "bool \<Rightarrow> bool \<Rightarrow> mcp_tools \<Rightarrow> mcp_tools" where
  "init toolsListElement mcpApi_loaded t =
     t\<lparr>toolsList := toolsListElement, hasApiAccess := mcpApi_loaded\<rparr>"

definition tools_notify :: "string \<Rightarrow> string \<Rightarrow> mcp_tools \<Rightarrow> mcp_tools" where
  "tools_notify message type t =
     (if app_present t
      then t\<lparr>tools_notifications := tools_notifications t @ [(message, type)]\<rparr>
      else t)"

text \<open>
  \<^verbatim>\<open>validateConfig\<close>: the value and its \<^verbatim>\<open>mcpServers\<close> must be truthy,
  \<^verbatim>\<open>typeof config.mcpServers\<close> must be \<^verbatim>\<open>'object'\<close>, and it must have at least one key.
\<close>

definition validateConfig :: "json \<Rightarrow> bool" where
  "validateConfig cfg =
     (if \<not> truthy cfg \<or> \<not> truthy_opt (property ''mcpServers'' cfg)
         \<or> map_option typeof (property ''mcpServers'' cfg) \<noteq> Some ''object''
      then False
      else (case property ''mcpServers'' cfg of
              None \<Rightarrow> False
            | Some servers \<Rightarrow> own_key_count servers > 0))"

definition saveConfig :: "mcp_tools \<Rightarrow> mcp_tools" where
  "saveConfig t =
     (if truthy_opt (config t) then t\<lparr>stored_config := config t\<rparr> else t)"

text \<open>
  \<^verbatim>\<open>renderToolsList\<close> builds page elements from the configuration and changes nothing
  else. The model keeps whether it runs and, through the parameter \<open>render\<close>, whether the
  traversal of the given configuration throws (\<open>Some\<close> of the error message), as it does on
  a server entry that is \<^verbatim>\<open>null\<close>.
\<close>

definition renderToolsList :: "(json \<Rightarrow> string option) \<Rightarrow> mcp_tools \<Rightarrow> string option" where
  "renderToolsList render t =
     (case config t of
        None \<Rightarrow> None
      | Some cfg \<Rightarrow> if \<not> toolsList t \<or> \<not> truthy cfg then None else render cfg)"

text \<open>
  \<^verbatim>\<open>loadConfigFromFile\<close>. \<open>parsed\<close> is the outcome of reading the file and of
  \<^verbatim>\<open>JSON.parse\<close> on its text: the parsed value, or the message of the error thrown.
\<close>

definition load_failed :: "string \<Rightarrow> mcp_tools \<Rightarrow> bool \<times> mcp_tools" where
  "load_failed m t =
     (False,
      if app_present t
      then tools_notify (''Error loading MCP config: '' @ m) ''error'' t
      else t\<lparr>alerts := alerts t @ [''Error loading MCP config: '' @ m]\<rparr>)"

definition loadConfigFromFile ::
  "(json \<Rightarrow> string option) \<Rightarrow> string + json \<Rightarrow> mcp_tools \<Rightarrow> bool \<times> mcp_tools" where
  "loadConfigFromFile render parsed t =
     (case parsed of
        Inl m \<Rightarrow> load_failed m t
      | Inr cfg \<Rightarrow>
          if \<not> validateConfig cfg then load_failed ''Invalid MCP configuration format'' t
          else (let t1 = saveConfig (t\<lparr>config := Some cfg\<rparr>)
                in case renderToolsList render t1 of
                     Some m \<Rightarrow> load_failed m t1
                   | None \<Rightarrow>
                       (True, tools_notify ''MCP configuration loaded successfully''
                                ''success'' t1)))"

text \<open>
  \<^verbatim>\<open>this.config.mcpServers[serverName]\<close>, for a configuration of the file format:
  \<^verbatim>\<open>mcpServers\<close> an object, the name looked up among its own properties (inherited ones
  such as \<^verbatim>\<open>constructor\<close> are not modelled). A configuration whose \<^verbatim>\<open>mcpServers\<close> is an
  array, which \<^verbatim>\<open>validateConfig\<close> lets pass, has the keys \<^verbatim>\<open>0\<close>, \<^verbatim>\<open>1\<close> and so on; the
  model does not follow it further and knows no server in it.
\<close>

definition server_entry :: "json \<Rightarrow> string \<Rightarrow> json option" where
  "server_entry cfg n =
     (case property ''mcpServers'' cfg of
        Some (JObj servers) \<Rightarrow> map_of servers n
      | _ \<Rightarrow> None)"

text \<open>The negation of the guard \<^verbatim>\<open>!this.config || !this.config.mcpServers[serverName]\<close>.\<close>

definition server_known :: "mcp_tools \<Rightarrow> string \<Rightarrow> bool" where
  "server_known t n =
     (case config t of
        None \<Rightarrow> False
      | Some cfg \<Rightarrow> truthy cfg \<and> truthy_opt (server_entry cfg n))"

definition is_disabled :: "json \<Rightarrow> bool" where
  "is_disabled entry = truthy_opt (property ''disabled'' entry)"

text \<open>The configuration with the \<^verbatim>\<open>disabled\<close> property of one server entry assigned.\<close>

definition set_disabled :: "string \<Rightarrow> bool \<Rightarrow> json \<Rightarrow> json" where
  "set_disabled n d cfg =
     (case cfg of
        JObj kvs \<Rightarrow>
          (case map_of kvs ''mcpServers'' of
             Some (JObj servers) \<Rightarrow>
               (case map_of servers n of
                  Some (JObj entry) \<Rightarrow>
                    JObj (AList.update ''mcpServers''
                            (JObj (AList.update n
                                     (JObj (AList.update ''disabled'' (JBool d) entry)) servers))
                            kvs)
                | _ \<Rightarrow> cfg)
           | _ \<Rightarrow> cfg)
      | _ \<Rightarrow> cfg)"

text \<open>
  \<^verbatim>\<open>toggleServerConnection(serverName, connect)\<close>. \<open>reply\<close> settles the one request of
  the connect branch; the disconnect branch makes no request and does not look at it.
\<close>

definition toggleServerConnection ::
  "(json \<Rightarrow> string option) \<Rightarrow> connect_reply \<Rightarrow> string \<Rightarrow> bool \<Rightarrow> mcp_tools \<Rightarrow> mcp_tools" where
  "toggleServerConnection render reply n connect t =
     (if \<not> hasApiAccess t then tools_notify ''API access not available'' ''error'' t
      else if \<not> server_known t n then t
      else
        (let (t1, thrown) =
               (if connect
                then (let t0 = t\<lparr>tools_api_calls := tools_api_calls t @ [Connect n]\<rparr>
                      in case reply of
                           Connect_failed m \<Rightarrow> (t0, Some m)
                         | Connect_result success message \<Rightarrow>
                             if success
                             then (tools_notify (''Connected to '' @ n) ''success''
                                     (t0\<lparr>connectedServers := insert n (connectedServers t0)\<rparr>),
                                   None)
                             else (tools_notify
                                     (''Failed to connect to '' @ n @ '': '' @ message)
                                     ''error'' t0,
                                   None))
                else (tools_notify (''Disconnected from '' @ n) ''info''
                        (t\<lparr>connectedServers := connectedServers t - {n}\<rparr>),
                      None))
         in case (case thrown of Some m \<Rightarrow> Some m | None \<Rightarrow> renderToolsList render t1) of
              None \<Rightarrow> t1
            | Some m \<Rightarrow>
                tools_notify
                  (''Error '' @ (if connect then ''connecting to'' else ''disconnecting from'')
                     @ '' server: '' @ m)
                  ''error'' t1))"

text \<open>
  \<^verbatim>\<open>toggleServerStatus(serverName)\<close>. The second component is the message of an exception
  that leaves the function: the assignment to a property of a server entry that is not an
  object (class bodies are strict code; an entry that is an array is treated alike, the
  model having no arrays with named properties), or a failing \<^verbatim>\<open>renderToolsList\<close>. The
  call of \<^verbatim>\<open>toggleServerConnection(serverName, false)\<close> runs to its end before the next
  statement, as it awaits nothing.
\<close>

definition toggleServerStatus ::
  "(json \<Rightarrow> string option) \<Rightarrow> string \<Rightarrow> mcp_tools \<Rightarrow> mcp_tools \<times> string option" where
  "toggleServerStatus render n t =
     (if \<not> server_known t n then (t, None)
      else
        (case config t of
           None \<Rightarrow> (t, None)
         | Some cfg \<Rightarrow>
             (case server_entry cfg n of
                Some (JObj entry) \<Rightarrow>
                  (let d = \<not> is_disabled (JObj entry);
                       t1 = saveConfig (t\<lparr>config := Some (set_disabled n d cfg)\<rparr>);
                       t2 = (if d \<and> n \<in> connectedServers t1
                             then toggleServerConnection render (Connect_failed []) n False t1
                             else t1)
                   in case renderToolsList render t2 of
                        Some m \<Rightarrow> (t2, Some m)
                      | None \<Rightarrow>
                          (tools_notify
                             (''Server '' @ n @ '' '' @ (if d then ''disabled'' else ''enabled''))
                             ''info'' t2,
                           None))
              | _ \<Rightarrow> (t, Some ''Cannot create property disabled''))))"

definition isServerConnected :: "mcp_tools \<Rightarrow> string \<Rightarrow> bool" where
  "isServerConnected t n = (n \<in> connectedServers t)"

text \<open>
  The loop over the form's input elements in \<^verbatim>\<open>executeTool\<close>: the value of each named
  element, converted by its \<^verbatim>\<open>dataset.type\<close>, is assigned to \<^verbatim>\<open>inputs[input.name]\<close>. Only
  the JSON branch throws. \<open>parse\<close> is \<^verbatim>\<open>JSON.parse\<close>, with \<open>None\<close> where it throws.
\<close>

definition convert_input :: "(string \<Rightarrow> json option) \<Rightarrow> form_input \<Rightarrow> error + form_value" where
  "convert_input parse i =
     (if dataset_type i = Some ''boolean'' then Inr (Checked (input_checked i))
      else if dataset_type i = Some ''number'' \<or> dataset_type i = Some ''integer''
      then Inr (Numeric (Number_js (input_value i)))
      else if dataset_type i = Some ''object'' \<or> dataset_type i = Some ''array''
      then (case parse (input_value i) of
              None \<Rightarrow> Inl (Error (''Invalid JSON in '' @ input_name i))
            | Some j \<Rightarrow> Inr (Parsed j))
      else Inr (Text (input_value i)))"

fun collect_inputs ::
  "(string \<Rightarrow> json option) \<Rightarrow> (string \<times> form_value) list \<Rightarrow> form_input list
     \<Rightarrow> error + (string \<times> form_value) list" where
  "collect_inputs parse acc [] = Inr acc"
| "collect_inputs parse acc (i # rest) =
     (if input_name i = [] \<or> input_name i = ''submit'' then collect_inputs parse acc rest
      else (case convert_input parse i of
              Inl e \<Rightarrow> Inl e
            | Inr v \<Rightarrow> collect_inputs parse (AList.update (input_name i) v acc) rest))"

text \<open>
  \<^verbatim>\<open>executeTool(toolId, serverName, toolName)\<close>. \<open>reply\<close> settles the request of
  \<^verbatim>\<open>callMcpTool\<close>, which is made only after all inputs have been collected.
\<close>

definition show_result :: "string \<Rightarrow> display \<Rightarrow> mcp_tools \<Rightarrow> mcp_tools" where
  "show_result toolId d t =
     (case panels t toolId of
        None \<Rightarrow> t
      | Some p \<Rightarrow> t\<lparr>panels := (panels t)(toolId \<mapsto> p\<lparr>shown := d\<rparr>)\<rparr>)"

definition executeTool ::
  "(string \<Rightarrow> json option) \<Rightarrow> call_reply \<Rightarrow> string \<Rightarrow> string \<Rightarrow> string \<Rightarrow> mcp_tools
     \<Rightarrow> mcp_tools" where
  "executeTool parse reply toolId serverName toolName t =
     (case panels t toolId of
        None \<Rightarrow> t
      | Some p \<Rightarrow>
          if \<not> hasApiAccess t then show_result toolId Api_unavailable t
          else if serverName \<notin> connectedServers t then show_result toolId Not_connected t
          else (case collect_inputs parse [] (inputs p) of
                  Inl e \<Rightarrow> show_result toolId (Errored (error_message e)) t
                | Inr values \<Rightarrow>
                    (let t1 = t\<lparr>tools_api_calls :=
                                  tools_api_calls t @ [Call_tool serverName toolName values]\<rparr>
                     in case reply of
                          Call_failed m \<Rightarrow> show_result toolId (Errored m) t1
                        | Call_result success res err \<Rightarrow>
                            if success then show_result toolId (Succeeded res) t1
                            else show_result toolId
                                   (Failed (case err of
                                              None \<Rightarrow> ''Unknown error''
                                            | Some m \<Rightarrow> if m = [] then ''Unknown error'' else m))
                                   t1)))"

section \<open>Connecting all servers (providers.js, connectToMcpServers)\<close>

text \<open>
  The operation works on the application and, when \<^verbatim>\<open>window.mcpTools\<close> exists, on the
  registry. \<open>reply\<close> settles the request of \<^verbatim>\<open>connectToAllMcpServers\<close>; its list of
  servers is \<open>None\<close> when the field is missing or not an array.
\<close>

definition connectToMcpServers ::
  "(json \<Rightarrow> string option) \<Rightarrow> connect_all_reply \<Rightarrow> app \<times> mcp_tools option
     \<Rightarrow> app \<times> mcp_tools option" where
  "connectToMcpServers render reply w =
     (case w of (a, tools) \<Rightarrow>
        if mcpApi_keys a = None
        then (showNotification ''API client not available. Cannot connect to MCP servers.''
                ''warning'' a, tools)
        else
          (let a1 = (showNotification ''Connecting to MCP servers...'' ''info'' a)
                      \<lparr>api_calls := api_calls a @ [Connect_all]\<rparr>
           in case reply of
                Connect_all_failed m \<Rightarrow>
                  (showNotification (''Error connecting to MCP servers: '' @ m) ''error'' a1,
                   tools)
              | Connect_all_result success message servers \<Rightarrow>
                  if success
                  then (let a2 = showNotification message ''success'' a1;
                            tools' = (case (tools, servers) of
                                        (Some t, Some names) \<Rightarrow>
                                          Some (t\<lparr>connectedServers :=
                                                    fold insert names (connectedServers t)\<rparr>)
                                      | _ \<Rightarrow> tools)
                        in case (case tools' of
                                   None \<Rightarrow> None
                                 | Some t \<Rightarrow> renderToolsList render t) of
                             None \<Rightarrow> (a2, tools')
                           | Some m \<Rightarrow>
                               (showNotification (''Error connecting to MCP servers: '' @ m)
                                  ''error'' a2,
                                tools'))
                  else (showNotification message ''warning'' a1, tools)))"

section \<open>The page as a whole\<close>

text \<open>
  \<^verbatim>\<open>getElements\<close> looks the elements up in the page: the text of the input box, the
  flag of the send button, the state of the indicator, each \<open>None\<close> when the element is
  missing, and whether there is a chat container.
\<close>

definition getElements :: "string option \<Rightarrow> bool option \<Rightarrow> bool option \<Rightarrow> bool \<Rightarrow> app \<Rightarrow> app" where
  "getElements input_box send_button indicator container s =
     s\<lparr>userInput := input_box, sendButton := send_button, processingIndicator := indicator,
       chatContainer := (if container then Some [] else None)\<rparr>"

text \<open>
  The states of the page. \<^verbatim>\<open>MCPClientApp.init\<close> runs \<^verbatim>\<open>getElements\<close> on the new
  application object and then \<^verbatim>\<open>mcpTools.init\<close>, which reads \<^verbatim>\<open>window.mcpApi\<close>; only
  then are the event listeners installed. From there every operation modelled above may run,
  with any arguments and replies, in any order; the user may type, choose a provider and a
  model, and save an API key; and panels may be opened and closed.
\<close>

inductive reachable :: "app \<times> mcp_tools \<Rightarrow> bool" where
  started:
    "reachable (getElements input_box send_button indicator container
                  (new_MCPClientApp keys stored_keys stored_history),
                init el (keys \<noteq> None) (new_MCPTools stored present))"
| config_loaded:
    "reachable (a, t) \<Longrightarrow> reachable (a, snd (loadConfigFromFile render parsed t))"
| status_toggled:
    "reachable (a, t) \<Longrightarrow> reachable (a, fst (toggleServerStatus render n t))"
| connection_toggled:
    "reachable (a, t) \<Longrightarrow> reachable (a, toggleServerConnection render reply n connect t)"
| tool_executed:
    "reachable (a, t) \<Longrightarrow> reachable (a, executeTool parse call toolId serverName toolName t)"
| panels_changed:
    "reachable (a, t) \<Longrightarrow> reachable (a, t\<lparr>panels := ps\<rparr>)"
| all_connected:
    "reachable (a, t) \<Longrightarrow> connectToMcpServers render batch (a, Some t) = (a', Some t')
       \<Longrightarrow> reachable (a', t')"
| history_loaded:
    "reachable (a, t) \<Longrightarrow> reachable (loadChatHistory (config t) clock a, t)"
| message_begun:
    "reachable (a, t) \<Longrightarrow> reachable (fst (sendMessage_begin (config t) now a), t)"
| message_finished:
    "reachable (a, t) \<Longrightarrow> reachable (fst (sendMessage_finish (config t) now connect_error answer message a), t)"
| text_typed:
    "reachable (a, t) \<Longrightarrow> userInput a \<noteq> None \<Longrightarrow> reachable (a\<lparr>userInput := Some typed\<rparr>, t)"
| selection_changed:
    "reachable (a, t) \<Longrightarrow> reachable (a\<lparr>currentProvider := provider, currentModel := model\<rparr>, t)"
| key_saved:
    "reachable (a, t) \<Longrightarrow> mcpApi_keys a = Some table
       \<Longrightarrow> reachable (a\<lparr>mcpApi_keys := Some (table(provider \<mapsto> key))\<rparr>, t)"

text \<open>
  What holds in all these states: the registry's \<^verbatim>\<open>hasApiAccess\<close> agrees with the
  presence of \<^verbatim>\<open>window.mcpApi\<close>, a server is connected only with API access, and a
  turn is in progress only in a page that has the input box and the send button.
\<close>

definition page_invariant :: "app \<Rightarrow> mcp_tools \<Rightarrow> bool" where
  "page_invariant a t =
     (hasApiAccess t = (mcpApi_keys a \<noteq> None)
      \<and> (connectedServers t \<noteq> {} \<longrightarrow> hasApiAccess t)
      \<and> (isProcessing a \<longrightarrow> userInput a \<noteq> None \<and> sendButton a \<noteq> None))"


section \<open>Properties of the response folding\<close>

subsection \<open>Splitting and joining\<close>

lemma split_js_nonempty: "split_js sep s \<noteq> []"
  by (induction s) (auto split: list.splits)

lemma hd_split_js: "hd (split_js sep s) = takeWhile (\<lambda>c. c \<noteq> sep) s"
  by (induction s) (auto split: list.splits simp: split_js_nonempty)

lemma join_split_js: "join_js sep (split_js sep s) = s"
proof (induction s)
  case Nil
  then show ?case by simp
next
  case (Cons c cs)
  obtain p ps where sp: "split_js sep cs = p # ps"
    by (cases "split_js sep cs") (auto simp: split_js_nonempty)
  show ?case
  proof (cases "c = sep")
    case True
    then show ?thesis using Cons sp by simp
  next
    case False
    then show ?thesis using Cons sp by (cases ps) auto
  qed
qed

lemma join_tl_split_js:
  "sep \<in> set s \<Longrightarrow> join_js sep (tl (split_js sep s)) = tl (dropWhile (\<lambda>c. c \<noteq> sep) s)"
proof (induction s)
  case Nil
  then show ?case by simp
next
  case (Cons c cs)
  show ?case
  proof (cases "c = sep")
    case True
    then show ?thesis by (simp add: join_split_js)
  next
    case False
    with Cons have "sep \<in> set cs" by simp
    with Cons False show ?thesis
      by (cases "split_js sep cs") (auto simp: split_js_nonempty)
  qed
qed


lemma used_kept: "set (snd acc) \<subseteq> set (snd (process_step acc s))"
  by (cases acc; cases s) auto

lemma used_grows: "set (snd acc) \<subseteq> set (snd (process_steps acc ss))"
proof (induction ss arbitrary: acc)
  case Nil
  then show ?case by simp
next
  case (Cons s ss)
  have "set (snd acc) \<subseteq> set (snd (process_step acc s))" by (rule used_kept)
  also have "\<dots> \<subseteq> set (snd (process_steps (process_step acc s) ss))" by (rule Cons.IH)
  finally show ?case by simp
qed

lemma recorded_unless_present:
  "Tool_call tool a \<in> set ss \<Longrightarrow>
     (\<exists>a'. resolve_tool tool a' \<in> set (snd (process_steps acc ss)))
     \<or> (\<exists>e \<in> set (snd (process_steps acc ss)). name e = tool)"
proof (induction ss arbitrary: acc)
  case Nil
  then show ?case by simp
next
  case (Cons s ss)
  show ?case
  proof (cases "s = Tool_call tool a")
    case True
    obtain f u where acc: "acc = (f, u)" by (cases acc)
    let ?acc' = "process_step acc s"
    have sub: "set (snd ?acc') \<subseteq> set (snd (process_steps ?acc' ss))" by (rule used_grows)
    show ?thesis
    proof (cases "list_ex (\<lambda>t. name t = tool) u")
      case True
      then obtain e where "e \<in> set u" "name e = tool" by (auto simp: list_ex_iff)
      with acc \<open>s = Tool_call tool a\<close> have "e \<in> set (snd ?acc')" by simp
      with sub \<open>name e = tool\<close> show ?thesis by auto
    next
      case False
      with acc \<open>s = Tool_call tool a\<close> have "resolve_tool tool a \<in> set (snd ?acc')" by simp
      with sub show ?thesis by auto
    qed
  next
    case False
    with Cons.prems have "Tool_call tool a \<in> set ss" by simp
    from Cons.IH [OF this, of "process_step acc s"] show ?thesis by simp
  qed
qed

lemma resolve_tool_underscore:
  assumes "CHR ''_'' \<in> set tool"
  shows "resolve_tool tool a =
           \<lparr>name = tl (dropWhile (\<lambda>c. c \<noteq> CHR ''_'') tool),
            server = takeWhile (\<lambda>c. c \<noteq> CHR ''_'') tool, args = a\<rparr>"
  using assms by (simp add: resolve_tool_def hd_split_js join_tl_split_js)

lemma first_sep_decomposition:
  assumes "sep \<in> set s"
  shows "s = takeWhile (\<lambda>c. c \<noteq> sep) s @ sep # tl (dropWhile (\<lambda>c. c \<noteq> sep) s)"
proof -
  from assms have "dropWhile (\<lambda>c. c \<noteq> sep) s \<noteq> []" by (simp add: dropWhile_eq_Nil_conv) 
  moreover have "hd (dropWhile (\<lambda>c. c \<noteq> sep) s) = sep"
    using hd_dropWhile [of "\<lambda>c. c \<noteq> sep" s] calculation by auto
  ultimately have "dropWhile (\<lambda>c. c \<noteq> sep) s = sep # tl (dropWhile (\<lambda>c. c \<noteq> sep) s)"
    by (cases "dropWhile (\<lambda>c. c \<noteq> sep) s") auto
  then show ?thesis
    using takeWhile_dropWhile_id [of "\<lambda>c. c \<noteq> sep" s] by simp
qed


subsection \<open>Recording of tools\<close>

lemma bare_step_distinct:
  assumes "distinct (map name (snd acc))"
    and "\<forall>tool a. s = Tool_call tool a \<longrightarrow> CHR ''_'' \<notin> set tool"
  shows "distinct (map name (snd (process_step acc s)))"
  using assms by (cases acc; cases s) (auto simp: resolve_tool_def list_ex_iff)

lemma bare_names_recorded_once:
  assumes "distinct (map name (snd acc))"
    and "\<forall>tool a. Tool_call tool a \<in> set ss \<longrightarrow> CHR ''_'' \<notin> set tool"
  shows "distinct (map name (snd (process_steps acc ss)))"
  using assms
proof (induction ss arbitrary: acc)
  case Nil
  then show ?case by simp
next
  case (Cons s ss)
  have "distinct (map name (snd (process_step acc s)))"
    using Cons.prems by (intro bare_step_distinct) auto
  then show ?case using Cons.prems by (auto intro: Cons.IH)
qed

lemma stripped_name_differs:
  assumes "CHR ''_'' \<in> set tool"
  shows "name (resolve_tool tool a) \<noteq> tool"
proof
  assume eq: "name (resolve_tool tool a) = tool"
  define srv where "srv = takeWhile (\<lambda>c. c \<noteq> CHR ''_'') tool"
  define nm where "nm = tl (dropWhile (\<lambda>c. c \<noteq> CHR ''_'') tool)"
  have "tool = srv @ CHR ''_'' # nm"
    unfolding srv_def nm_def using assms by (rule first_sep_decomposition)
  then have "length tool = length srv + Suc (length nm)" by simp
  moreover have "name (resolve_tool tool a) = nm"
    using assms by (simp add: resolve_tool_underscore nm_def)
  ultimately show False using eq by simp
qed

lemma prefixed_identifier_recorded_again:
  assumes "CHR ''_'' \<in> set tool"
  shows "snd (process_steps ([], []) [Tool_call tool a, Tool_call tool b]) =
           [resolve_tool tool a, resolve_tool tool b]"
  using stripped_name_differs [OF assms, of a] by simp

text \<open>
  Claim C1 (the usedTools list of a turn has no duplicate (server, tool) pairs, also for
  identifiers of the form server_toolname). The presence test compares the stored, already
  stripped \<^verbatim>\<open>name\<close> with the whole identifier \<^verbatim>\<open>step.tool\<close>, so for a prefixed identifier
  it never finds the earlier entry: two \<^verbatim>\<open>tool_call\<close> steps for \<^verbatim>\<open>fs_list_dir\<close> record
  the pair (fs, list_dir) twice, and so does every identifier with an underscore
  (\<open>prefixed_identifier_recorded_again\<close>). For identifiers without an underscore the test
  works (\<open>bare_names_recorded_once\<close>).
\<close>

theorem repeated_prefixed_tool_recorded_twice:
  "processAiWithToolsResponse
     (Some \<lparr>response = None,
            steps = Some [Tool_call ''fs_list_dir'' (JObj []), Tool_call ''fs_list_dir'' (JObj [])]\<rparr>)
   = Inr \<lparr>processedResponse = tool_call_block ''fs_list_dir'' @ tool_call_block ''fs_list_dir'',
          usedTools = [\<lparr>name = ''list_dir'', server = ''fs'', args = JObj []\<rparr>,
                       \<lparr>name = ''list_dir'', server = ''fs'', args = JObj []\<rparr>]\<rparr>"
  by (simp add: processAiWithToolsResponse_def resolve_tool_def tool_call_block_def)

subsection \<open>The example turn\<close>

text \<open>
  Claim C3 (the example turn). For the steps tool_call \<^verbatim>\<open>fs_list_dir\<close> with empty
  arguments, tool_result \<^verbatim>\<open>[a.txt, b.txt]\<close>, response \<^verbatim>\<open>Here are your files.\<close>, the
  composed content is: two line feeds, the bracketed line of the tool call (the label
  U+4F7F U+7528 U+5DE5 U+5177, a colon, a space and the identifier), a line feed; then the
  result block, which is a line feed, the label U+7ED3 U+679C, a colon, a space, the text
  \<^verbatim>\<open>[a.txt, b.txt]\<close> and two line feeds; then the response text. So the content ends with
  \<^verbatim>\<open>Here are your files.\<close> and contains the delimited result block, and usedTools is the
  single entry with name \<^verbatim>\<open>list_dir\<close> and server \<^verbatim>\<open>fs\<close> (its arguments the empty object
  of the step).
\<close>

theorem example_turn_transcript:
  "processAiWithToolsResponse
     (Some \<lparr>response = None,
            steps = Some [Tool_call ''fs_list_dir'' (JObj []),
                          Tool_result ''[a.txt, b.txt]'',
                          Response ''Here are your files.'']\<rparr>)
   = Inr \<lparr>processedResponse =
            ([CHR 0x0A, CHR 0x0A] @ ''[''
               @ [CHR 0xE4, CHR 0xBD, CHR 0xBF, CHR 0xE7, CHR 0x94, CHR 0xA8,
                  CHR 0xE5, CHR 0xB7, CHR 0xA5, CHR 0xE5, CHR 0x85, CHR 0xB7]
               @ '': fs_list_dir]'' @ [CHR 0x0A])
            @ ([CHR 0x0A, CHR 0xE7, CHR 0xBB, CHR 0x93, CHR 0xE6, CHR 0x9E, CHR 0x9C]
                 @ '': [a.txt, b.txt]'' @ [CHR 0x0A, CHR 0x0A])
            @ ''Here are your files.'',
          usedTools = [\<lparr>name = ''list_dir'', server = ''fs'', args = JObj []\<rparr>]\<rparr>
   \<and> suffix ''Here are your files.''
        (([CHR 0x0A, CHR 0x0A] @ ''[''
            @ [CHR 0xE4, CHR 0xBD, CHR 0xBF, CHR 0xE7, CHR 0x94, CHR 0xA8,
               CHR 0xE5, CHR 0xB7, CHR 0xA5, CHR 0xE5, CHR 0x85, CHR 0xB7]
            @ '': fs_list_dir]'' @ [CHR 0x0A])
         @ ([CHR 0x0A, CHR 0xE7, CHR 0xBB, CHR 0x93, CHR 0xE6, CHR 0x9E, CHR 0x9C]
              @ '': [a.txt, b.txt]'' @ [CHR 0x0A, CHR 0x0A])
         @ ''Here are your files.'')
   \<and> sublist ([CHR 0x0A, CHR 0xE7, CHR 0xBB, CHR 0x93, CHR 0xE6, CHR 0x9E, CHR 0x9C]
                @ '': [a.txt, b.txt]'' @ [CHR 0x0A, CHR 0x0A])
        (([CHR 0x0A, CHR 0x0A] @ ''[''
            @ [CHR 0xE4, CHR 0xBD, CHR 0xBF, CHR 0xE7, CHR 0x94, CHR 0xA8,
               CHR 0xE5, CHR 0xB7, CHR 0xA5, CHR 0xE5, CHR 0x85, CHR 0xB7]
            @ '': fs_list_dir]'' @ [CHR 0x0A])
         @ ([CHR 0x0A, CHR 0xE7, CHR 0xBB, CHR 0x93, CHR 0xE6, CHR 0x9E, CHR 0x9C]
              @ '': [a.txt, b.txt]'' @ [CHR 0x0A, CHR 0x0A])
         @ ''Here are your files.'')"
proof (intro conjI)
  show "processAiWithToolsResponse
     (Some \<lparr>response = None,
            steps = Some [Tool_call ''fs_list_dir'' (JObj []),
                          Tool_result ''[a.txt, b.txt]'',
                          Response ''Here are your files.'']\<rparr>)
   = Inr \<lparr>processedResponse =
            ([CHR 0x0A, CHR 0x0A] @ ''[''
               @ [CHR 0xE4, CHR 0xBD, CHR 0xBF, CHR 0xE7, CHR 0x94, CHR 0xA8,
                  CHR 0xE5, CHR 0xB7, CHR 0xA5, CHR 0xE5, CHR 0x85, CHR 0xB7]
               @ '': fs_list_dir]'' @ [CHR 0x0A])
            @ ([CHR 0x0A, CHR 0xE7, CHR 0xBB, CHR 0x93, CHR 0xE6, CHR 0x9E, CHR 0x9C]
                 @ '': [a.txt, b.txt]'' @ [CHR 0x0A, CHR 0x0A])
            @ ''Here are your files.'',
          usedTools = [\<lparr>name = ''list_dir'', server = ''fs'', args = JObj []\<rparr>]\<rparr>"
    by (simp add: processAiWithToolsResponse_def resolve_tool_def tool_call_block_def
        tool_result_block_def label_tool_used_def label_result_def)
next
  show "suffix ''Here are your files.''
        (([CHR 0x0A, CHR 0x0A] @ ''[''
            @ [CHR 0xE4, CHR 0xBD, CHR 0xBF, CHR 0xE7, CHR 0x94, CHR 0xA8,
               CHR 0xE5, CHR 0xB7, CHR 0xA5, CHR 0xE5, CHR 0x85, CHR 0xB7]
            @ '': fs_list_dir]'' @ [CHR 0x0A])
         @ ([CHR 0x0A, CHR 0xE7, CHR 0xBB, CHR 0x93, CHR 0xE6, CHR 0x9E, CHR 0x9C]
              @ '': [a.txt, b.txt]'' @ [CHR 0x0A, CHR 0x0A])
         @ ''Here are your files.'')"
    by (simp only: suffix_appendI suffix_order.refl)
next
  show "sublist ([CHR 0x0A, CHR 0xE7, CHR 0xBB, CHR 0x93, CHR 0xE6, CHR 0x9E, CHR 0x9C]
                @ '': [a.txt, b.txt]'' @ [CHR 0x0A, CHR 0x0A])
        (([CHR 0x0A, CHR 0x0A] @ ''[''
            @ [CHR 0xE4, CHR 0xBD, CHR 0xBF, CHR 0xE7, CHR 0x94, CHR 0xA8,
               CHR 0xE5, CHR 0xB7, CHR 0xA5, CHR 0xE5, CHR 0x85, CHR 0xB7]
            @ '': fs_list_dir]'' @ [CHR 0x0A])
         @ ([CHR 0x0A, CHR 0xE7, CHR 0xBB, CHR 0x93, CHR 0xE6, CHR 0x9E, CHR 0x9C]
              @ '': [a.txt, b.txt]'' @ [CHR 0x0A, CHR 0x0A])
         @ ''Here are your files.'')"
    by (rule sublist_appendI)
qed

subsection \<open>The first underscore\<close>

lemma used_origin:
  "e \<in> set (snd (process_steps acc ss)) \<Longrightarrow>
     e \<in> set (snd acc) \<or> (\<exists>t b. Tool_call t b \<in> set ss \<and> e = resolve_tool t b)"
proof (induction ss arbitrary: acc)
  case Nil
  then show ?case by simp
next
  case (Cons s ss)
  from Cons.prems have "e \<in> set (snd (process_steps (process_step acc s) ss))" by simp
  from Cons.IH [OF this]
  consider "e \<in> set (snd (process_step acc s))"
    | "\<exists>t b. Tool_call t b \<in> set ss \<and> e = resolve_tool t b" by blast
  then show ?case
  proof cases
    case 1
    then show ?thesis by (cases acc; cases s) (auto split: if_splits)
  next
    case 2
    then show ?thesis by auto
  qed
qed

lemma first_step_recorded:
  "resolve_tool tool a \<in> set (snd (process_steps ([], []) (Tool_call tool a # rest)))"
proof -
  have "resolve_tool tool a \<in> set (snd (process_step ([], []) (Tool_call tool a)))" by simp
  then show ?thesis
    using used_grows [of "process_step ([], []) (Tool_call tool a)" rest] by auto
qed

text \<open>
  Claim C6 as amended (first-underscore split of the steps that are recorded). A tool
  identifier with at least one underscore is the server name, an underscore and the tool
  name, where the server name is the part before the first underscore (it has none itself)
  and the tool name is all that follows, later underscores kept. Whenever the loop records
  a tool_call step with such an identifier, that is when no entry passes the presence test,
  as for the first step of a response, it pushes exactly this entry. Every entry of
  usedTools comes from a tool_call step of the response in this way (with an empty server
  name for an identifier without underscore); no configuration and no connection state is
  consulted. A step that the presence test skips is not resolved at all.
\<close>

theorem tool_identifier_split_at_first_underscore:
  assumes "CHR ''_'' \<in> set tool"
  shows "tool = takeWhile (\<lambda>c. c \<noteq> CHR ''_'') tool @ CHR ''_'' # tl (dropWhile (\<lambda>c. c \<noteq> CHR ''_'') tool)
       \<and> CHR ''_'' \<notin> set (takeWhile (\<lambda>c. c \<noteq> CHR ''_'') tool)
       \<and> (\<forall>formatted used. \<not> list_ex (\<lambda>t. name t = tool) used \<longrightarrow>
             snd (process_step (formatted, used) (Tool_call tool a)) =
               used @ [\<lparr>name = tl (dropWhile (\<lambda>c. c \<noteq> CHR ''_'') tool),
                        server = takeWhile (\<lambda>c. c \<noteq> CHR ''_'') tool, args = a\<rparr>])
       \<and> (\<forall>r rest out.
             processAiWithToolsResponse
               (Some \<lparr>response = r, steps = Some (Tool_call tool a # rest)\<rparr>) = Inr out
             \<longrightarrow> \<lparr>name = tl (dropWhile (\<lambda>c. c \<noteq> CHR ''_'') tool),
                   server = takeWhile (\<lambda>c. c \<noteq> CHR ''_'') tool, args = a\<rparr>
                   \<in> set (usedTools out))
       \<and> (\<forall>r ss out.
             processAiWithToolsResponse (Some \<lparr>response = r, steps = Some ss\<rparr>) = Inr out
             \<longrightarrow> (\<forall>e \<in> set (usedTools out).
                    \<exists>t b. Tool_call t b \<in> set ss \<and> args e = b
                      \<and> (if CHR ''_'' \<in> set t
                          then server e = takeWhile (\<lambda>c. c \<noteq> CHR ''_'') t
                             \<and> name e = tl (dropWhile (\<lambda>c. c \<noteq> CHR ''_'') t)
                          else server e = [] \<and> name e = t)))"
proof -
  have dec: "tool = takeWhile (\<lambda>c. c \<noteq> CHR ''_'') tool @ CHR ''_'' # tl (dropWhile (\<lambda>c. c \<noteq> CHR ''_'') tool)"
    using assms by (rule first_sep_decomposition)
  have nosep: "CHR ''_'' \<notin> set (takeWhile (\<lambda>c. c \<noteq> CHR ''_'') tool)"
    by (auto dest: set_takeWhileD)
  have push: "\<forall>formatted used. \<not> list_ex (\<lambda>t. name t = tool) used \<longrightarrow>
             snd (process_step (formatted, used) (Tool_call tool a)) =
               used @ [\<lparr>name = tl (dropWhile (\<lambda>c. c \<noteq> CHR ''_'') tool),
                        server = takeWhile (\<lambda>c. c \<noteq> CHR ''_'') tool, args = a\<rparr>]"
    using assms by (simp add: resolve_tool_underscore)
  have out_eq: "usedTools out = snd (process_steps ([], []) ss)"
    if "processAiWithToolsResponse (Some \<lparr>response = r, steps = Some ss\<rparr>) = Inr out"
    for r ss out
    using that by (auto simp: processAiWithToolsResponse_def split: prod.splits)
  have first: "\<forall>r rest out.
             processAiWithToolsResponse
               (Some \<lparr>response = r, steps = Some (Tool_call tool a # rest)\<rparr>) = Inr out
             \<longrightarrow> \<lparr>name = tl (dropWhile (\<lambda>c. c \<noteq> CHR ''_'') tool),
                   server = takeWhile (\<lambda>c. c \<noteq> CHR ''_'') tool, args = a\<rparr>
                   \<in> set (usedTools out)"
  proof (intro allI impI)
    fix r rest out
    assume "processAiWithToolsResponse
              (Some \<lparr>response = r, steps = Some (Tool_call tool a # rest)\<rparr>) = Inr out"
    then have "usedTools out = snd (process_steps ([], []) (Tool_call tool a # rest))"
      by (rule out_eq)
    then have "resolve_tool tool a \<in> set (usedTools out)"
      using first_step_recorded [of tool a rest] by simp
    then show "\<lparr>name = tl (dropWhile (\<lambda>c. c \<noteq> CHR ''_'') tool),
                 server = takeWhile (\<lambda>c. c \<noteq> CHR ''_'') tool, args = a\<rparr> \<in> set (usedTools out)"
      using assms by (simp add: resolve_tool_underscore)
  qed
  have origin: "\<forall>r ss out.
             processAiWithToolsResponse (Some \<lparr>response = r, steps = Some ss\<rparr>) = Inr out
             \<longrightarrow> (\<forall>e \<in> set (usedTools out).
                    \<exists>t b. Tool_call t b \<in> set ss \<and> args e = b
                      \<and> (if CHR ''_'' \<in> set t
                          then server e = takeWhile (\<lambda>c. c \<noteq> CHR ''_'') t
                             \<and> name e = tl (dropWhile (\<lambda>c. c \<noteq> CHR ''_'') t)
                          else server e = [] \<and> name e = t))"
  proof (intro allI impI ballI)
    fix r ss out e
    assume "processAiWithToolsResponse (Some \<lparr>response = r, steps = Some ss\<rparr>) = Inr out"
      and "e \<in> set (usedTools out)"
    then have "e \<in> set (snd (process_steps ([], []) ss))" by (simp add: out_eq)
    then obtain t b where tb: "Tool_call t b \<in> set ss" and e: "e = resolve_tool t b"
      using used_origin [of e "([], [])" ss] by auto
    show "\<exists>t b. Tool_call t b \<in> set ss \<and> args e = b
            \<and> (if CHR ''_'' \<in> set t
                then server e = takeWhile (\<lambda>c. c \<noteq> CHR ''_'') t
                   \<and> name e = tl (dropWhile (\<lambda>c. c \<noteq> CHR ''_'') t)
                else server e = [] \<and> name e = t)"
    proof (intro exI conjI)
      show "Tool_call t b \<in> set ss" by (rule tb)
      show "args e = b" by (simp add: e resolve_tool_def Let_def)
      show "if CHR ''_'' \<in> set t
            then server e = takeWhile (\<lambda>c. c \<noteq> CHR ''_'') t
               \<and> name e = tl (dropWhile (\<lambda>c. c \<noteq> CHR ''_'') t)
            else server e = [] \<and> name e = t"
        by (cases "CHR ''_'' \<in> set t") (simp_all add: e resolve_tool_underscore, simp add: resolve_tool_def)
    qed
  qed
  from dec nosep push first origin show ?thesis by blast
qed

theorem tool_identifier_split_witness:
  "CHR ''_'' \<in> set ''doc-qa-server_query_docs''
   \<and> ''doc-qa-server_query_docs'' = ''doc-qa-server'' @ CHR ''_'' # ''query_docs''
   \<and> snd (process_step ([], []) (Tool_call ''doc-qa-server_query_docs'' JNull))
       = [\<lparr>name = ''query_docs'', server = ''doc-qa-server'', args = JNull\<rparr>]"
  using tool_identifier_split_at_first_underscore [of "''doc-qa-server_query_docs''" JNull]
  by (simp add: resolve_tool_def)

text \<open>
  Claim C6 as stated (every tool_call step with an underscore in its identifier is resolved
  at the first underscore, unconditionally) does not hold: the split runs only inside the
  presence test. After a step for \<^verbatim>\<open>fs_list_dir\<close>, which is recorded with the name
  \<^verbatim>\<open>list_dir\<close>, a step for the identifier \<^verbatim>\<open>list_dir\<close> finds an entry of that name and is
  skipped; no entry with server \<^verbatim>\<open>list\<close> and name \<^verbatim>\<open>dir\<close> is recorded.
\<close>

theorem shadowed_identifier_not_resolved:
  "CHR ''_'' \<in> set ''list_dir''
   \<and> map_sum id usedTools
       (processAiWithToolsResponse
          (Some \<lparr>response = None,
                 steps = Some [Tool_call ''fs_list_dir'' (JObj []),
                               Tool_call ''list_dir'' (JObj [])]\<rparr>))
     = Inr [\<lparr>name = ''list_dir'', server = ''fs'', args = JObj []\<rparr>]"
  by (simp add: processAiWithToolsResponse_def resolve_tool_def)

section \<open>Properties of the chat application\<close>

subsection \<open>Rehydrating the transcript\<close>

lemma addMessageToChat_pushes:
  assumes "\<not> formatMessage_throws registry" and "chatContainer s = Some msgs"
  shows "addMessageToChat registry now r c used s =
           Inr (s\<lparr>chatContainer :=
                     Some (msgs @ [(r, c, if r = ''ai'' then map name used else [])]),
                   chatHistory :=
                     chatHistory s @
                       [\<lparr>role = r, content = c, entry_usedTools = used, timestamp = now\<rparr>]\<rparr>)"
  using assms by (simp add: addMessageToChat_def)

lemma addMessageToChat_throws:
  assumes "formatMessage_throws registry" and "chatContainer s \<noteq> None"
  shows "addMessageToChat registry now r c used s = Inl (TypeError ''formatMessage'')"
  using assms by (auto simp: addMessageToChat_def)

lemma forEach_replay_history:
  assumes "\<not> formatMessage_throws registry"
    and "chatContainer s \<noteq> None" and "k \<le> len" and "len \<le> length (chatHistory s)"
  shows "chatHistory (forEach_replay registry clock k len s) =
           chatHistory s @
             map (\<lambda>i. \<lparr>role = role (chatHistory s ! i), content = content (chatHistory s ! i),
                        entry_usedTools = [], timestamp = clock i\<rparr>) [k..<len]"
  using assms
proof (induction registry clock k len s rule: forEach_replay.induct)
  case (1 registry clock k len s)
  show ?case
  proof (cases "k < len")
    case False
    then show ?thesis by (subst forEach_replay.simps) simp
  next
    case True
    with "1.prems" have klen: "k < length (chatHistory s)" by simp
    let ?m = "chatHistory s ! k"
    from "1.prems"(2) obtain msgs where msgs: "chatContainer s = Some msgs" by auto
    define s' where
      "s' = s\<lparr>chatContainer := Some (msgs @ [(role ?m, content ?m, [])]),
               chatHistory :=
                 chatHistory s @ [\<lparr>role = role ?m, content = content ?m, entry_usedTools = [],
                                   timestamp = clock k\<rparr>]\<rparr>"
    have step: "addMessageToChat registry (clock k) (role ?m) (content ?m) [] s = Inr s'"
      using "1.prems"(1) msgs by (simp add: addMessageToChat_pushes s'_def)
    have h': "chatHistory s' =
                chatHistory s @ [\<lparr>role = role ?m, content = content ?m, entry_usedTools = [],
                                  timestamp = clock k\<rparr>]"
      and c': "chatContainer s' \<noteq> None"
      by (simp_all add: s'_def)
    have "chatHistory (forEach_replay registry clock (Suc k) len s') =
            chatHistory s' @
              map (\<lambda>i. \<lparr>role = role (chatHistory s' ! i), content = content (chatHistory s' ! i),
                         entry_usedTools = [], timestamp = clock i\<rparr>) [Suc k..<len]"
      using True klen "1.prems" c' h'
      by (intro "1.IH"(1) [OF True klen refl step]) auto
    moreover have "\<forall>i \<in> set [Suc k..<len]. chatHistory s' ! i = chatHistory s ! i"
      using "1.prems" h' by (auto simp: nth_append)
    ultimately have "chatHistory (forEach_replay registry clock (Suc k) len s') =
            chatHistory s' @
              map (\<lambda>i. \<lparr>role = role (chatHistory s ! i), content = content (chatHistory s ! i),
                         entry_usedTools = [], timestamp = clock i\<rparr>) [Suc k..<len]"
      by (auto cong: map_cong)
    moreover have "forEach_replay registry clock k len s =
                     forEach_replay registry clock (Suc k) len s'"
      using True klen step by (subst forEach_replay.simps) (simp add: Let_def)
    ultimately show ?thesis using True h' by (simp add: upt_conv_Cons)
  qed
qed

lemma forEach_replay_aborted:
  assumes "formatMessage_throws registry"
    and "chatContainer s \<noteq> None" and "len \<le> length (chatHistory s)"
  shows "forEach_replay registry clock k len s = s"
proof (cases "k < len")
  case False
  then show ?thesis by (subst forEach_replay.simps) simp
next
  case True
  with assms(3) have "k < length (chatHistory s)" by simp
  with True assms(1,2) show ?thesis
    by (subst forEach_replay.simps) (simp add: Let_def addMessageToChat_throws)
qed

lemma formatMessage_accepts_example_config:
  "\<not> formatMessage_throws
        (Some (JObj [(''mcpServers'', JObj [(''fs'', JObj [(''tools'', JArr [JStr ''list_dir''])])])]))"
  by (simp add: formatMessage_throws_def property_def server_tools_ok_def tool_name_ok_def)

text \<open>
  Claim C10 as amended (rehydration doubles the transcript unless rendering fails). When the
  page has a chat container and the stored history is a list \<open>h\<close> of n entries,
  \<^verbatim>\<open>loadChatHistory\<close> first assigns \<open>h\<close> and then replays each of its entries through
  \<^verbatim>\<open>addMessageToChat\<close>. If \<^verbatim>\<open>formatMessage\<close> does not throw on the registry's
  configuration (it cannot without a configuration), every replay pushes a copy with an
  empty usedTools list and a new time: the history in memory is \<open>h\<close> followed by the n
  copies, 2n entries, and the next \<^verbatim>\<open>saveChatHistory\<close> stores that list. If it throws, the
  first replay ends the loop and the history stays \<open>h\<close>, n entries.
\<close>

theorem rehydration_doubles_unless_rendering_fails:
  assumes "chatContainer s \<noteq> None" and "stored_chat_history s = Saved h"
  shows "(\<not> formatMessage_throws registry \<longrightarrow>
            chatHistory (loadChatHistory registry clock s) = h @ replayed clock h
          \<and> length (chatHistory (loadChatHistory registry clock s)) = 2 * length h
          \<and> (\<forall>e \<in> set (replayed clock h). entry_usedTools e = [])
          \<and> stored_chat_history (saveChatHistory (loadChatHistory registry clock s))
              = Saved (h @ replayed clock h))
       \<and> (formatMessage_throws registry \<longrightarrow>
            chatHistory (loadChatHistory registry clock s) = h)
       \<and> \<not> formatMessage_throws None"
proof -
  have doubled: "chatHistory (loadChatHistory registry clock s) = h @ replayed clock h"
    if ok: "\<not> formatMessage_throws registry"
  proof (cases "h = []")
    case True
    then show ?thesis using assms by (auto simp: loadChatHistory_def replayed_def)
  next
    case False
    then have "loadChatHistory registry clock s =
                 forEach_replay registry clock 0 (length h) (s\<lparr>chatHistory := h\<rparr>)"
      using assms by (auto simp: loadChatHistory_def)
    moreover have
      "chatHistory (forEach_replay registry clock 0 (length h) (s\<lparr>chatHistory := h\<rparr>)) =
         chatHistory (s\<lparr>chatHistory := h\<rparr>) @
           map (\<lambda>i. \<lparr>role = role (chatHistory (s\<lparr>chatHistory := h\<rparr>) ! i),
                      content = content (chatHistory (s\<lparr>chatHistory := h\<rparr>) ! i),
                      entry_usedTools = [], timestamp = clock i\<rparr>) [0..<length h]"
      using assms(1) ok by (intro forEach_replay_history) auto
    ultimately show ?thesis by (simp add: replayed_def)
  qed
  have kept: "chatHistory (loadChatHistory registry clock s) = h"
    if "formatMessage_throws registry"
  proof -
    have "forEach_replay registry clock 0 (length h) (s\<lparr>chatHistory := h\<rparr>) = s\<lparr>chatHistory := h\<rparr>"
      using that assms(1) by (intro forEach_replay_aborted) auto
    then show ?thesis using assms by (auto simp: loadChatHistory_def Let_def)
  qed
  have none: "\<not> formatMessage_throws None" by (simp add: formatMessage_throws_def)
  from doubled kept none show ?thesis by (auto simp: replayed_def saveChatHistory_def)
qed

theorem rehydration_doubles_witness:
  "chatContainer ((new_MCPClientApp None Map.empty
        (Saved [\<lparr>role = ''ai'', content = ''Here are your files.'',
                 entry_usedTools = [\<lparr>name = ''list_dir'', server = ''fs'', args = JObj []\<rparr>],
                 timestamp = ''2025-01-01T10:00:00.000Z''\<rparr>]))
      \<lparr>chatContainer := Some []\<rparr>) \<noteq> None
   \<and> chatHistory
       (loadChatHistory
          (Some (JObj [(''mcpServers'', JObj [(''fs'', JObj [(''tools'', JArr [JStr ''list_dir''])])])]))
          (\<lambda>k. ''2025-01-02T08:00:00.000Z'')
          ((new_MCPClientApp None Map.empty
              (Saved [\<lparr>role = ''ai'', content = ''Here are your files.'',
                       entry_usedTools = [\<lparr>name = ''list_dir'', server = ''fs'', args = JObj []\<rparr>],
                       timestamp = ''2025-01-01T10:00:00.000Z''\<rparr>]))
             \<lparr>chatContainer := Some []\<rparr>))
     = [\<lparr>role = ''ai'', content = ''Here are your files.'',
         entry_usedTools = [\<lparr>name = ''list_dir'', server = ''fs'', args = JObj []\<rparr>],
         timestamp = ''2025-01-01T10:00:00.000Z''\<rparr>,
        \<lparr>role = ''ai'', content = ''Here are your files.'', entry_usedTools = [],
         timestamp = ''2025-01-02T08:00:00.000Z''\<rparr>]"
  using rehydration_doubles_unless_rendering_fails
    [of "(new_MCPClientApp None Map.empty
            (Saved [\<lparr>role = ''ai'', content = ''Here are your files.'',
                     entry_usedTools = [\<lparr>name = ''list_dir'', server = ''fs'', args = JObj []\<rparr>],
                     timestamp = ''2025-01-01T10:00:00.000Z''\<rparr>]))
           \<lparr>chatContainer := Some []\<rparr>"
        "[\<lparr>role = ''ai'', content = ''Here are your files.'',
           entry_usedTools = [\<lparr>name = ''list_dir'', server = ''fs'', args = JObj []\<rparr>],
           timestamp = ''2025-01-01T10:00:00.000Z''\<rparr>]"
        "Some (JObj [(''mcpServers'', JObj [(''fs'', JObj [(''tools'', JArr [JStr ''list_dir''])])])])"
        "\<lambda>k. ''2025-01-02T08:00:00.000Z''"]
    formatMessage_accepts_example_config
  by (simp add: new_MCPClientApp_def replayed_def)

text \<open>
  Claim C10 as stated (2n entries after every rehydration of n entries) does not hold: with
  a registry configuration whose server entry is \<^verbatim>\<open>null\<close>, which \<^verbatim>\<open>validateConfig\<close>
  accepts, \<^verbatim>\<open>formatMessage\<close> throws at \<^verbatim>\<open>server.tools\<close> in the first replay, and a stored
  history of one entry is one entry afterwards.
\<close>

theorem rehydration_aborted_by_formatMessage:
  "validateConfig (JObj [(''mcpServers'', JObj [(''fs'', JNull)])])
   \<and> chatHistory
       (loadChatHistory (Some (JObj [(''mcpServers'', JObj [(''fs'', JNull)])]))
          (\<lambda>k. ''2025-01-02T08:00:00.000Z'')
          ((new_MCPClientApp None Map.empty
              (Saved [\<lparr>role = ''user'', content = ''list files here'', entry_usedTools = [],
                       timestamp = ''2025-01-01T10:00:00.000Z''\<rparr>]))
             \<lparr>chatContainer := Some []\<rparr>))
     = [\<lparr>role = ''user'', content = ''list files here'', entry_usedTools = [],
         timestamp = ''2025-01-01T10:00:00.000Z''\<rparr>]"
  by (simp add: validateConfig_def truthy_opt_def loadChatHistory_def new_MCPClientApp_def
      forEach_replay.simps addMessageToChat_def formatMessage_throws_def property_def
      server_tools_ok_def)

subsection \<open>One turn at a time\<close>

lemma busy_submission_changes_no_transcript:
  assumes "isProcessing s"
  shows "chatHistory (fst (sendMessage_begin registry now s)) = chatHistory s
       \<and> snd (sendMessage_begin registry now s) = Returned"
  using assms by (auto simp: sendMessage_begin_def showNotification_def split: option.splits)

lemma accepted_turn_is_in_progress:
  assumes "sendMessage_begin registry now s = (s', Awaiting message)"
  shows "isProcessing s' \<and> userInput s' \<noteq> None \<and> sendButton s' \<noteq> None \<and> \<not> isProcessing s"
  using assms
  by (auto simp: sendMessage_begin_def showNotification_def addMessageToChat_def Let_def
      split: option.splits if_splits sum.splits)

lemma finished_turn_is_idle:
  "\<not> isProcessing (fst (sendMessage_finish registry now connect_error answer message s))"
  by (simp add: sendMessage_finish_def turn_finally_def Let_def case_prod_beta)

text \<open>
  Claim C4 (a submission during a turn is rejected). In a state where a turn is in progress
  (\<open>isProcessing\<close> holds) and the page has the input box and the send button, as it has
  in every state in which a turn was started (\<open>accepted_turn_is_in_progress\<close>) and in
  every reachable state with a turn in progress (\<open>turn_in_progress_has_elements\<close>),
  \<^verbatim>\<open>sendMessage\<close> calls \<^verbatim>\<open>showNotification\<close> with the ``please wait'' warning and returns:
  no turn is started, nothing is kept for later (the state is the old one with the
  notification added), and the transcript is unchanged. Without these elements the function
  returns at once and the transcript is unchanged as well
  (\<open>busy_submission_changes_no_transcript\<close>).
\<close>

theorem busy_submission_rejected:
  assumes "isProcessing s" and "userInput s \<noteq> None" and "sendButton s \<noteq> None"
  shows "sendMessage_begin registry now s =
           (s\<lparr>notifications := notifications s @
                 [(''Please wait for the current message to finish processing.'', ''warning'')]\<rparr>,
            Returned)
       \<and> chatHistory (fst (sendMessage_begin registry now s)) = chatHistory s
       \<and> isProcessing (fst (sendMessage_begin registry now s))"
  using assms by (auto simp: sendMessage_begin_def showNotification_def)

theorem busy_submission_witness:
  "isProcessing ((new_MCPClientApp None Map.empty Absent)
      \<lparr>isProcessing := True, userInput := Some ''and the second question'',
       sendButton := Some True\<rparr>)
   \<and> sendMessage_begin None ''2025-01-01T10:00:00.000Z''
       ((new_MCPClientApp None Map.empty Absent)
          \<lparr>isProcessing := True, userInput := Some ''and the second question'',
           sendButton := Some True\<rparr>)
     = ((new_MCPClientApp None Map.empty Absent)
          \<lparr>isProcessing := True, userInput := Some ''and the second question'',
           sendButton := Some True,
           notifications :=
             [(''Please wait for the current message to finish processing.'', ''warning'')]\<rparr>,
        Returned)"
  using busy_submission_rejected
    [of "(new_MCPClientApp None Map.empty Absent)
           \<lparr>isProcessing := True, userInput := Some ''and the second question'',
            sendButton := Some True\<rparr>" None "''2025-01-01T10:00:00.000Z''"]
  by (simp add: new_MCPClientApp_def)

section \<open>Properties of the registry\<close>

subsection \<open>Configuration loading\<close>

lemma validateConfig_iff:
  "validateConfig cfg \<longleftrightarrow>
     (\<exists>servers. property ''mcpServers'' cfg = Some servers \<and> truthy cfg
        \<and> ((\<exists>kvs. servers = JObj kvs \<and> kvs \<noteq> []) \<or> (\<exists>xs. servers = JArr xs \<and> xs \<noteq> [])))"
proof (cases "property ''mcpServers'' cfg")
  case None
  then show ?thesis by (simp add: validateConfig_def truthy_opt_def)
next
  case (Some servers)
  then show ?thesis
    by (cases servers) (auto simp: validateConfig_def truthy_opt_def)
qed

lemma property_truthy: "property k cfg = Some v \<Longrightarrow> truthy cfg"
  by (cases cfg) (auto simp: property_def)

lemma load_failed_keeps:
  "fst (load_failed m t) = False \<and> config (snd (load_failed m t)) = config t
     \<and> stored_config (snd (load_failed m t)) = stored_config t
     \<and> connectedServers (snd (load_failed m t)) = connectedServers t"
  by (simp add: load_failed_def tools_notify_def)

lemma load_invalid:
  assumes "\<not> validateConfig cfg"
  shows "loadConfigFromFile render (Inr cfg) t = load_failed ''Invalid MCP configuration format'' t"
  using assms by (simp add: loadConfigFromFile_def)

lemma load_valid:
  assumes "validateConfig cfg"
  shows "config (snd (loadConfigFromFile render (Inr cfg) t)) = Some cfg
       \<and> stored_config (snd (loadConfigFromFile render (Inr cfg) t)) = Some cfg
       \<and> (render cfg = None \<longrightarrow> fst (loadConfigFromFile render (Inr cfg) t))"
proof -
  from assms have "truthy cfg" by (auto simp: validateConfig_iff)
  then show ?thesis using assms
    by (auto simp: loadConfigFromFile_def saveConfig_def truthy_opt_def load_failed_keeps
        renderToolsList_def tools_notify_def Let_def split: option.splits)
qed

text \<open>
  Claim C5 as amended (loading a configuration). If \<^verbatim>\<open>mcpServers\<close> is missing, or is
  \<^verbatim>\<open>null\<close>, a boolean, a number or a string, or is an object or an array without keys, the
  load fails and both \<^verbatim>\<open>this.config\<close> and the stored copy stay as they were; so does a
  file that cannot be read or parsed. If \<^verbatim>\<open>mcpServers\<close> is an object with at least one
  server, or an array with at least one element, \<^verbatim>\<open>this.config\<close> and the stored copy
  become the parsed value as a whole, and the load reports success unless the rendering of
  the list throws. After any load the configuration is either the previous one or the new
  one.
\<close>

theorem load_rejects_or_replaces:
  "((property ''mcpServers'' cfg = None
       \<or> property ''mcpServers'' cfg = Some JNull
       \<or> (\<exists>b. property ''mcpServers'' cfg = Some (JBool b))
       \<or> (\<exists>n. property ''mcpServers'' cfg = Some (JNum n))
       \<or> (\<exists>s. property ''mcpServers'' cfg = Some (JStr s))
       \<or> property ''mcpServers'' cfg = Some (JObj [])
       \<or> property ''mcpServers'' cfg = Some (JArr []))
      \<longrightarrow> \<not> fst (loadConfigFromFile render (Inr cfg) t)
          \<and> config (snd (loadConfigFromFile render (Inr cfg) t)) = config t
          \<and> stored_config (snd (loadConfigFromFile render (Inr cfg) t)) = stored_config t)
   \<and> (\<forall>servers. servers \<noteq> []
           \<and> (property ''mcpServers'' cfg = Some (JObj servers))
         \<longrightarrow> config (snd (loadConfigFromFile render (Inr cfg) t)) = Some cfg
           \<and> stored_config (snd (loadConfigFromFile render (Inr cfg) t)) = Some cfg
           \<and> (render cfg = None \<longrightarrow> fst (loadConfigFromFile render (Inr cfg) t)))
   \<and> (\<forall>elements. elements \<noteq> []
           \<and> (property ''mcpServers'' cfg = Some (JArr elements))
         \<longrightarrow> config (snd (loadConfigFromFile render (Inr cfg) t)) = Some cfg
           \<and> stored_config (snd (loadConfigFromFile render (Inr cfg) t)) = Some cfg
           \<and> (render cfg = None \<longrightarrow> fst (loadConfigFromFile render (Inr cfg) t)))
   \<and> (config (snd (loadConfigFromFile render (Inr cfg) t)) = config t
        \<or> config (snd (loadConfigFromFile render (Inr cfg) t)) = Some cfg)
   \<and> \<not> fst (loadConfigFromFile render (Inl m) t)
   \<and> config (snd (loadConfigFromFile render (Inl m) t)) = config t
   \<and> stored_config (snd (loadConfigFromFile render (Inl m) t)) = stored_config t"
proof -
  let ?L = "loadConfigFromFile render (Inr cfg) t"
  have rej: "\<not> fst ?L \<and> config (snd ?L) = config t \<and> stored_config (snd ?L) = stored_config t"
    if "\<not> validateConfig cfg"
    using that by (simp add: load_invalid load_failed_keeps)
  have a: "\<not> fst ?L \<and> config (snd ?L) = config t \<and> stored_config (snd ?L) = stored_config t"
    if "property ''mcpServers'' cfg = None
       \<or> property ''mcpServers'' cfg = Some JNull
       \<or> (\<exists>b. property ''mcpServers'' cfg = Some (JBool b))
       \<or> (\<exists>n. property ''mcpServers'' cfg = Some (JNum n))
       \<or> (\<exists>s. property ''mcpServers'' cfg = Some (JStr s))
       \<or> property ''mcpServers'' cfg = Some (JObj [])
       \<or> property ''mcpServers'' cfg = Some (JArr [])"
  proof -
    from that have "\<not> validateConfig cfg" by (auto simp: validateConfig_iff)
    then show ?thesis by (rule rej)
  qed
  have b: "config (snd ?L) = Some cfg \<and> stored_config (snd ?L) = Some cfg \<and> (render cfg = None \<longrightarrow> fst ?L)"
    if "servers \<noteq> [] \<and> property ''mcpServers'' cfg = Some (JObj servers)" for servers
  proof -
    from that have "validateConfig cfg" by (auto simp: validateConfig_iff dest: property_truthy)
    then show ?thesis by (rule load_valid)
  qed
  have b': "config (snd ?L) = Some cfg \<and> stored_config (snd ?L) = Some cfg \<and> (render cfg = None \<longrightarrow> fst ?L)"
    if "elements \<noteq> [] \<and> property ''mcpServers'' cfg = Some (JArr elements)" for elements
  proof -
    from that have "validateConfig cfg" by (auto simp: validateConfig_iff dest: property_truthy)
    then show ?thesis by (rule load_valid)
  qed
  have c: "config (snd ?L) = config t \<or> config (snd ?L) = Some cfg"
    using rej load_valid [of cfg render t] by (cases "validateConfig cfg") auto
  have d: "\<not> fst (loadConfigFromFile render (Inl m) t)
       \<and> config (snd (loadConfigFromFile render (Inl m) t)) = config t
       \<and> stored_config (snd (loadConfigFromFile render (Inl m) t)) = stored_config t"
    by (simp add: loadConfigFromFile_def load_failed_keeps)
  from a b b' c d show ?thesis by blast
qed

theorem load_rejects_or_replaces_witness:
  "property ''mcpServers'' (JObj [(''mcpServers'', JObj [])]) = Some (JObj [])
   \<and> \<not> fst (loadConfigFromFile Map.empty (Inr (JObj [(''mcpServers'', JObj [])]))
             ((new_MCPTools None False)
                \<lparr>config := Some (JObj [(''mcpServers'', JObj [(''fs'', JObj [])])])\<rparr>))
   \<and> config (snd (loadConfigFromFile Map.empty (Inr (JObj [(''mcpServers'', JObj [])]))
                    ((new_MCPTools None False)
                       \<lparr>config := Some (JObj [(''mcpServers'', JObj [(''fs'', JObj [])])])\<rparr>)))
     = Some (JObj [(''mcpServers'', JObj [(''fs'', JObj [])])])
   \<and> property ''mcpServers'' (JObj [(''mcpServers'', JObj [(''git'', JObj [])])])
       = Some (JObj [(''git'', JObj [])])
   \<and> config (snd (loadConfigFromFile Map.empty
                    (Inr (JObj [(''mcpServers'', JObj [(''git'', JObj [])])]))
                    ((new_MCPTools None False)
                       \<lparr>config := Some (JObj [(''mcpServers'', JObj [(''fs'', JObj [])])])\<rparr>)))
     = Some (JObj [(''mcpServers'', JObj [(''git'', JObj [])])])"
  using load_rejects_or_replaces
    [of "JObj [(''mcpServers'', JObj [])]" Map.empty
        "(new_MCPTools None False)
           \<lparr>config := Some (JObj [(''mcpServers'', JObj [(''fs'', JObj [])])])\<rparr>" "[]"]
    load_rejects_or_replaces
    [of "JObj [(''mcpServers'', JObj [(''git'', JObj [])])]" Map.empty
        "(new_MCPTools None False)
           \<lparr>config := Some (JObj [(''mcpServers'', JObj [(''fs'', JObj [])])])\<rparr>" "[]"]
  by (simp add: property_def new_MCPTools_def)

text \<open>
  Claim C5 as stated (a configuration whose \<^verbatim>\<open>mcpServers\<close> is not an object is rejected
  and the previous configuration kept) does not hold: for \<^verbatim>\<open>typeof\<close> an array is an
  object, and its indices are its keys. Loading \<^verbatim>\<open>{"mcpServers": ["a"]}\<close> into a registry
  that holds a configuration with the server \<^verbatim>\<open>fs\<close> passes \<^verbatim>\<open>validateConfig\<close>, reports
  success and replaces both \<^verbatim>\<open>this.config\<close> and the stored copy. (Rendering the list for
  this value does not throw: the entry \<^verbatim>\<open>'a'\<close> has no \<^verbatim>\<open>tools\<close> and no
  \<^verbatim>\<open>resources\<close>.)
\<close>

theorem nonempty_array_config_is_loaded:
  "validateConfig (JObj [(''mcpServers'', JArr [JStr ''a''])])
   \<and> fst (loadConfigFromFile (\<lambda>c. None) (Inr (JObj [(''mcpServers'', JArr [JStr ''a''])]))
          (init True True (new_MCPTools None False)
             \<lparr>config := Some (JObj [(''mcpServers'', JObj [(''fs'', JObj [])])])\<rparr>))
   \<and> config (snd (loadConfigFromFile (\<lambda>c. None)
                    (Inr (JObj [(''mcpServers'', JArr [JStr ''a''])]))
                    (init True True (new_MCPTools None False)
                       \<lparr>config := Some (JObj [(''mcpServers'', JObj [(''fs'', JObj [])])])\<rparr>)))
     = Some (JObj [(''mcpServers'', JArr [JStr ''a''])])
   \<and> stored_config (snd (loadConfigFromFile (\<lambda>c. None)
                    (Inr (JObj [(''mcpServers'', JArr [JStr ''a''])]))
                    (init True True (new_MCPTools None False)
                       \<lparr>config := Some (JObj [(''mcpServers'', JObj [(''fs'', JObj [])])])\<rparr>)))
     = Some (JObj [(''mcpServers'', JArr [JStr ''a''])])"
  by (simp add: loadConfigFromFile_def validateConfig_def property_def truthy_opt_def
      saveConfig_def renderToolsList_def tools_notify_def init_def new_MCPTools_def Let_def)

subsection \<open>Connections\<close>

lemma tools_notify_frame [simp]:
  "connectedServers (tools_notify m ty t) = connectedServers t"
  "tools_api_calls (tools_notify m ty t) = tools_api_calls t"
  "config (tools_notify m ty t) = config t"
  "hasApiAccess (tools_notify m ty t) = hasApiAccess t"
  by (simp_all add: tools_notify_def)

lemma connect_outcome:
  "connectedServers (toggleServerConnection render reply n True t) =
     (if hasApiAccess t \<and> server_known t n \<and> (\<exists>message. reply = Connect_result True message)
      then insert n (connectedServers t) else connectedServers t)"
  by (cases reply) (auto simp: toggleServerConnection_def Let_def split: option.splits)

lemma disconnect_outcome:
  "connectedServers (toggleServerConnection render reply n False t) =
     (if hasApiAccess t \<and> server_known t n then connectedServers t - {n} else connectedServers t)"
  "tools_api_calls (toggleServerConnection render reply n False t) = tools_api_calls t"
  "config (toggleServerConnection render reply n False t) = config t"
  "hasApiAccess (toggleServerConnection render reply n False t) = hasApiAccess t"
  by (auto simp: toggleServerConnection_def Let_def split: option.splits)

text \<open>
  Claim C7 (membership after a connect). \<^verbatim>\<open>toggleServerConnection(name, true)\<close> leaves
  the connected set as it was or adds exactly the given name; it changes the set only when
  the reply reports success; on a reply without success and on a rejected request the set
  is unchanged; and with API access, a configured server and a successful reply the name
  is added.
\<close>

theorem connect_adds_only_on_success:
  "(connectedServers (toggleServerConnection render reply n True t) = connectedServers t
      \<or> connectedServers (toggleServerConnection render reply n True t) = insert n (connectedServers t))
   \<and> (connectedServers (toggleServerConnection render reply n True t) \<noteq> connectedServers t
        \<longrightarrow> (\<exists>message. reply = Connect_result True message))
   \<and> ((\<exists>message. reply = Connect_result False message) \<or> (\<exists>m. reply = Connect_failed m)
        \<longrightarrow> connectedServers (toggleServerConnection render reply n True t) = connectedServers t)
   \<and> (hasApiAccess t \<and> server_known t n
        \<longrightarrow> connectedServers (toggleServerConnection render (Connect_result True message) n True t)
              = insert n (connectedServers t))"
  by (auto simp: connect_outcome)

theorem connect_adds_only_on_success_witness:
  "connectedServers
     (toggleServerConnection Map.empty (Connect_result False ''refused'') ''fs'' True
        ((init True True (new_MCPTools None False))
           \<lparr>config := Some (JObj [(''mcpServers'', JObj [(''fs'', JObj [])])])\<rparr>)) = {}
   \<and> connectedServers
       (toggleServerConnection Map.empty (Connect_failed ''timeout'') ''fs'' True
          ((init True True (new_MCPTools None False))
             \<lparr>config := Some (JObj [(''mcpServers'', JObj [(''fs'', JObj [])])])\<rparr>)) = {}
   \<and> connectedServers
       (toggleServerConnection Map.empty (Connect_result True ''ok'') ''fs'' True
          ((init True True (new_MCPTools None False))
             \<lparr>config := Some (JObj [(''mcpServers'', JObj [(''fs'', JObj [])])])\<rparr>)) = {''fs''}"
  using connect_adds_only_on_success
    [of Map.empty "Connect_result False ''refused''" "''fs''"
        "(init True True (new_MCPTools None False))
           \<lparr>config := Some (JObj [(''mcpServers'', JObj [(''fs'', JObj [])])])\<rparr>" "''ok''"]
    connect_adds_only_on_success
    [of Map.empty "Connect_failed ''timeout''" "''fs''"
        "(init True True (new_MCPTools None False))
           \<lparr>config := Some (JObj [(''mcpServers'', JObj [(''fs'', JObj [])])])\<rparr>" "''ok''"]
  by (simp add: init_def new_MCPTools_def server_known_def server_entry_def property_def
      truthy_opt_def)

lemma fold_insert_union: "fold insert names S = set names \<union> S"
  by (induction names arbitrary: S) auto

lemma showNotification_keys [simp]: "mcpApi_keys (showNotification m ty a) = mcpApi_keys a"
  by (simp add: showNotification_def)

text \<open>
  Claim C9 (connecting all servers twice). For every state and every reply of the backend,
  running \<^verbatim>\<open>connectToMcpServers\<close> a second time with the same reply gives the connected
  set that the first run gave.
\<close>

theorem connect_all_idempotent:
  "map_option connectedServers
     (snd (connectToMcpServers render reply (connectToMcpServers render reply w)))
   = map_option connectedServers (snd (connectToMcpServers render reply w))"
proof (cases w)
  case (Pair a tools)
  show ?thesis
  proof (cases reply)
    case (Connect_all_failed m)
    then show ?thesis using Pair by (simp add: connectToMcpServers_def Let_def)
  next
    case (Connect_all_result success message servers)
    then show ?thesis using Pair
      by (cases tools; cases servers)
         (auto simp: connectToMcpServers_def Let_def fold_insert_union split: option.splits)
  qed
qed

subsection \<open>Disabling and enabling a server\<close>

lemma saveConfig_frame [simp]:
  "connectedServers (saveConfig t) = connectedServers t"
  "tools_api_calls (saveConfig t) = tools_api_calls t"
  "config (saveConfig t) = config t"
  "hasApiAccess (saveConfig t) = hasApiAccess t"
  by (simp_all add: saveConfig_def)

lemma server_entry_set_disabled:
  assumes "server_entry cfg n = Some (JObj entry)"
  shows "server_entry (set_disabled n d cfg) n = Some (JObj (AList.update ''disabled'' (JBool d) entry))"
proof -
  from assms obtain kvs servers where cfg: "cfg = JObj kvs"
    and srv: "map_of kvs ''mcpServers'' = Some (JObj servers)"
    and ent: "map_of servers n = Some (JObj entry)"
    by (cases cfg) (auto simp: server_entry_def property_def split: option.splits json.splits)
  then show ?thesis
    by (simp add: set_disabled_def server_entry_def property_def update_conv')
qed

lemma is_disabled_update:
  "is_disabled (JObj (AList.update ''disabled'' (JBool d) entry)) = d"
  by (simp add: is_disabled_def property_def update_conv' truthy_opt_def)

lemma server_entry_truthy: "server_entry cfg n = Some e \<Longrightarrow> truthy cfg"
  by (cases cfg) (auto simp: server_entry_def property_def)

lemma set_disabled_truthy: "truthy cfg \<Longrightarrow> truthy (set_disabled n d cfg)"
  by (cases cfg) (auto simp: set_disabled_def split: option.splits json.splits)

lemma toggleServerStatus_outcome:
  assumes "config t = Some cfg" and "server_entry cfg n = Some (JObj entry)"
  shows "connectedServers (fst (toggleServerStatus render n t)) =
           (if \<not> is_disabled (JObj entry) \<and> hasApiAccess t then connectedServers t - {n}
            else connectedServers t)"
    and "tools_api_calls (fst (toggleServerStatus render n t)) = tools_api_calls t"
    and "config (fst (toggleServerStatus render n t)) =
           Some (set_disabled n (\<not> is_disabled (JObj entry)) cfg)"
    and "hasApiAccess (fst (toggleServerStatus render n t)) = hasApiAccess t"
proof -
  have cfg: "truthy cfg" using assms(2) by (rule server_entry_truthy)
  then have known: "server_known t n"
    using assms by (simp add: server_known_def truthy_opt_def)
  define d where "d = (\<not> is_disabled (JObj entry))"
  define t1 where "t1 = saveConfig (t\<lparr>config := Some (set_disabled n d cfg)\<rparr>)"
  define t2 where "t2 = (if d \<and> n \<in> connectedServers t1
             then toggleServerConnection render (Connect_failed []) n False t1 else t1)"
  have known1: "server_known t1 n"
    using assms cfg
    by (simp add: t1_def server_known_def server_entry_set_disabled set_disabled_truthy
        truthy_opt_def)
  have eq: "fst (toggleServerStatus render n t) =
     (case renderToolsList render t2 of
        Some m \<Rightarrow> t2
      | None \<Rightarrow> tools_notify (''Server '' @ n @ '' '' @ (if d then ''disabled'' else ''enabled'')) ''info'' t2)"
    using assms known
    by (simp add: toggleServerStatus_def Let_def t2_def t1_def d_def split: option.splits)
  have c2: "connectedServers t2 =
           (if d \<and> hasApiAccess t then connectedServers t - {n} else connectedServers t)"
    using known1 by (auto simp: t2_def disconnect_outcome) (auto simp: t1_def)
  have a2: "tools_api_calls t2 = tools_api_calls t"
    by (simp add: t2_def disconnect_outcome) (simp add: t1_def)
  have g2: "config t2 = Some (set_disabled n d cfg)"
    by (simp add: t2_def disconnect_outcome) (simp add: t1_def)
  have h2: "hasApiAccess t2 = hasApiAccess t"
    by (simp add: t2_def disconnect_outcome) (simp add: t1_def)
  show "connectedServers (fst (toggleServerStatus render n t)) =
           (if \<not> is_disabled (JObj entry) \<and> hasApiAccess t then connectedServers t - {n}
            else connectedServers t)"
    unfolding eq using c2 by (simp add: d_def split: option.splits)
  show "tools_api_calls (fst (toggleServerStatus render n t)) = tools_api_calls t"
    unfolding eq using a2 by (simp split: option.splits)
  show "config (fst (toggleServerStatus render n t)) =
           Some (set_disabled n (\<not> is_disabled (JObj entry)) cfg)"
    unfolding eq using g2 by (simp add: d_def split: option.splits)
  show "hasApiAccess (fst (toggleServerStatus render n t)) = hasApiAccess t"
    unfolding eq using h2 by (simp split: option.splits)
qed

text \<open>
  Claim C8 (disabling and re-enabling). For a configured server, with API access:
  disabling it while it is connected removes exactly its name from the connected set, and
  enabling it again afterwards leaves it out; enabling a disabled server leaves the set as
  it is; in both directions no request is made and no other name enters or leaves the set.
  API access is the first guard of \<^verbatim>\<open>toggleServerConnection\<close>, through which the removal
  goes; it holds in every reachable state in which some server is connected
  (\<open>connected_server_has_api_access\<close>).
\<close>

theorem disable_disconnects_locally:
  assumes "config t = Some cfg" and "server_entry cfg n = Some (JObj entry)"
    and "hasApiAccess t"
  shows "(\<not> is_disabled (JObj entry) \<and> n \<in> connectedServers t \<longrightarrow>
            connectedServers (fst (toggleServerStatus render n t)) = connectedServers t - {n}
          \<and> connectedServers
              (fst (toggleServerStatus render' n (fst (toggleServerStatus render n t))))
              = connectedServers t - {n})
       \<and> (is_disabled (JObj entry) \<longrightarrow>
            connectedServers (fst (toggleServerStatus render n t)) = connectedServers t)
       \<and> tools_api_calls (fst (toggleServerStatus render n t)) = tools_api_calls t
       \<and> (\<forall>other. other \<noteq> n \<longrightarrow>
            (other \<in> connectedServers (fst (toggleServerStatus render n t))
               \<longleftrightarrow> other \<in> connectedServers t))"
proof -
  let ?t' = "fst (toggleServerStatus render n t)"
  note first = toggleServerStatus_outcome [OF assms(1,2), of render]
  have dis: "connectedServers ?t' = connectedServers t - {n}
          \<and> connectedServers (fst (toggleServerStatus render' n ?t')) = connectedServers t - {n}"
    if "\<not> is_disabled (JObj entry)"
  proof -
    have c1: "connectedServers ?t' = connectedServers t - {n}"
      using first(1) that assms(3) by simp
    have cfg': "config ?t' = Some (set_disabled n True cfg)"
      using first(3) that by simp
    have ent': "server_entry (set_disabled n True cfg) n =
                  Some (JObj (AList.update ''disabled'' (JBool True) entry))"
      using assms(2) by (rule server_entry_set_disabled)
    have "connectedServers (fst (toggleServerStatus render' n ?t')) = connectedServers ?t'"
      using toggleServerStatus_outcome(1) [OF cfg' ent', of render']
      by (simp add: is_disabled_update)
    with c1 show ?thesis by simp
  qed
  have en: "connectedServers ?t' = connectedServers t" if "is_disabled (JObj entry)"
    using first(1) that by simp
  have frame: "\<forall>other. other \<noteq> n \<longrightarrow> (other \<in> connectedServers ?t' \<longleftrightarrow> other \<in> connectedServers t)"
    using first(1) by auto
  from dis en first(2) frame show ?thesis by blast
qed

theorem disable_disconnects_witness:
  "connectedServers
     (fst (toggleServerStatus Map.empty ''fs''
             ((init True True (new_MCPTools None False))
                \<lparr>config := Some (JObj [(''mcpServers'',
                                          JObj [(''fs'', JObj []), (''git'', JObj [])])]),
                 connectedServers := {''fs'', ''git''}\<rparr>))) = {''git''}
   \<and> connectedServers
       (fst (toggleServerStatus Map.empty ''fs''
               (fst (toggleServerStatus Map.empty ''fs''
                       ((init True True (new_MCPTools None False))
                          \<lparr>config := Some (JObj [(''mcpServers'',
                                                    JObj [(''fs'', JObj []), (''git'', JObj [])])]),
                           connectedServers := {''fs'', ''git''}\<rparr>))))) = {''git''}"
  using disable_disconnects_locally
    [of "(init True True (new_MCPTools None False))
           \<lparr>config := Some (JObj [(''mcpServers'',
                                     JObj [(''fs'', JObj []), (''git'', JObj [])])]),
            connectedServers := {''fs'', ''git''}\<rparr>"
        "JObj [(''mcpServers'', JObj [(''fs'', JObj []), (''git'', JObj [])])]"
        "''fs''" "[]" Map.empty Map.empty]
  by (simp add: init_def new_MCPTools_def server_entry_def property_def is_disabled_def
      truthy_opt_def insert_Diff_if)

subsection \<open>Executing a tool\<close>


lemma Number_js_empty: "Number_js [] = Finite 0"
  by (simp add: Number_js_def trim_js_def strip_leading.simps js_whitespace_def)




lemma show_result_frame [simp]:
  "tools_api_calls (show_result toolId d t) = tools_api_calls t"
  "connectedServers (show_result toolId d t) = connectedServers t"
  by (simp_all add: show_result_def split: option.splits)







section \<open>Invariants of the running page\<close>

lemma load_frame:
  "hasApiAccess (snd (loadConfigFromFile render parsed t)) = hasApiAccess t"
  "connectedServers (snd (loadConfigFromFile render parsed t)) = connectedServers t"
  by (auto simp: loadConfigFromFile_def load_failed_def tools_notify_def saveConfig_def Let_def
      split: sum.splits option.splits)

lemma connection_frame:
  "hasApiAccess (toggleServerConnection render reply n connect t) = hasApiAccess t"
  "connectedServers (toggleServerConnection render reply n connect t) \<noteq> connectedServers t
     \<Longrightarrow> hasApiAccess t"
  by (auto simp: toggleServerConnection_def tools_notify_def Let_def
      split: option.splits connect_reply.splits if_splits)

lemma status_frame:
  "hasApiAccess (fst (toggleServerStatus render n t)) = hasApiAccess t"
  "connectedServers (fst (toggleServerStatus render n t)) \<subseteq> connectedServers t"
proof -
  show "hasApiAccess (fst (toggleServerStatus render n t)) = hasApiAccess t"
    by (auto simp: toggleServerStatus_def Let_def disconnect_outcome
        split: option.splits json.splits)
  show "connectedServers (fst (toggleServerStatus render n t)) \<subseteq> connectedServers t"
    by (auto simp: toggleServerStatus_def Let_def disconnect_outcome
        split: option.splits json.splits if_splits)
qed

lemma execute_frame:
  "hasApiAccess (executeTool parse call toolId serverName toolName t) = hasApiAccess t"
  "connectedServers (executeTool parse call toolId serverName toolName t) = connectedServers t"
  by (auto simp: executeTool_def show_result_def Let_def
      split: option.splits sum.splits call_reply.splits)

lemma connect_all_frame:
  assumes "connectToMcpServers render batch (a, Some t) = (a', Some t')"
  shows "mcpApi_keys a' = mcpApi_keys a" and "isProcessing a' = isProcessing a"
    and "userInput a' = userInput a" and "sendButton a' = sendButton a"
    and "hasApiAccess t' = hasApiAccess t"
    and "connectedServers t' \<noteq> connectedServers t \<Longrightarrow> mcpApi_keys a \<noteq> None"
  using assms
  by (auto simp: connectToMcpServers_def showNotification_def Let_def
      split: if_splits connect_all_reply.splits option.splits)

lemma addMessageToChat_frame:
  assumes "addMessageToChat registry now r c used s = Inr s'"
  shows "mcpApi_keys s' = mcpApi_keys s" and "isProcessing s' = isProcessing s"
    and "userInput s' = userInput s" and "sendButton s' = sendButton s"
  using assms by (auto simp: addMessageToChat_def split: option.splits if_splits)

lemma forEach_replay_frame:
  "mcpApi_keys (forEach_replay registry clock k len s) = mcpApi_keys s
   \<and> isProcessing (forEach_replay registry clock k len s) = isProcessing s
   \<and> userInput (forEach_replay registry clock k len s) = userInput s
   \<and> sendButton (forEach_replay registry clock k len s) = sendButton s"
proof (induction registry clock k len s rule: forEach_replay.induct)
  case (1 registry clock k len s)
  show ?case
  proof (cases "k < len")
    case False
    then show ?thesis by (subst (1 2 3 4) forEach_replay.simps) simp
  next
    case True
    show ?thesis
    proof (cases "k < length (chatHistory s)")
      case inside: True
      show ?thesis
      proof (cases "addMessageToChat registry (clock k) (role (chatHistory s ! k))
                      (content (chatHistory s ! k)) [] s")
        case (Inl e)
        with True inside show ?thesis
          by (subst (1 2 3 4) forEach_replay.simps) (simp add: Let_def)
      next
        case (Inr s')
        from "1.IH"(1) [OF True inside refl Inr] addMessageToChat_frame [OF Inr] True inside Inr
        show ?thesis
          by (subst (1 2 3 4) forEach_replay.simps) (simp add: Let_def)
      qed
    next
      case False
      with True "1.IH"(2) [OF True False] show ?thesis
        by (subst (1 2 3 4) forEach_replay.simps) simp
    qed
  qed
qed

lemma loadChatHistory_frame:
  "mcpApi_keys (loadChatHistory registry clock s) = mcpApi_keys s"
  "isProcessing (loadChatHistory registry clock s) = isProcessing s"
  "userInput (loadChatHistory registry clock s) = userInput s"
  "sendButton (loadChatHistory registry clock s) = sendButton s"
  by (auto simp: loadChatHistory_def forEach_replay_frame Let_def split: saved_history.splits)

lemma begin_frame:
  "mcpApi_keys (fst (sendMessage_begin registry now s)) = mcpApi_keys s"
  "isProcessing (fst (sendMessage_begin registry now s)) \<Longrightarrow>
     (isProcessing s \<and> userInput (fst (sendMessage_begin registry now s)) = userInput s
        \<and> sendButton (fst (sendMessage_begin registry now s)) = sendButton s)
     \<or> (userInput (fst (sendMessage_begin registry now s)) \<noteq> None
        \<and> sendButton (fst (sendMessage_begin registry now s)) \<noteq> None)"
  by (auto simp: sendMessage_begin_def showNotification_def addMessageToChat_def Let_def
      split: option.splits if_splits sum.splits)

lemma turn_failed_keys: "mcpApi_keys (fst (turn_failed registry now m s)) = mcpApi_keys s"
  by (auto simp: turn_failed_def saveChatHistory_def showNotification_def
      dest: addMessageToChat_frame split: sum.splits)

lemma turn_answered_keys:
  "mcpApi_keys (fst (turn_answered registry now c used s)) = mcpApi_keys s"
  by (auto simp: turn_answered_def turn_failed_keys saveChatHistory_def
      dest: addMessageToChat_frame split: sum.splits)

lemma finish_frame:
  "mcpApi_keys (fst (sendMessage_finish registry now connect_error answer message s))
     = mcpApi_keys s"
  by (simp add: sendMessage_finish_def turn_finally_def turn_failed_keys turn_answered_keys
      Let_def case_prod_beta split: option.splits sum.splits)

lemma reachable_invariant: "reachable w \<Longrightarrow> page_invariant (fst w) (snd w)"
proof (induction rule: reachable.induct)
  case (started input_box send_button indicator container keys stored_keys stored_history el
      stored present)
  then show ?case
    by (simp add: page_invariant_def getElements_def new_MCPClientApp_def init_def
        new_MCPTools_def)
next
  case (config_loaded a t render parsed)
  then show ?case by (auto simp: page_invariant_def load_frame)
next
  case (status_toggled a t render n)
  have "connectedServers (fst (toggleServerStatus render n t)) \<noteq> {} \<Longrightarrow> connectedServers t \<noteq> {}"
    using status_frame(2) [of render n t] by auto
  with status_toggled.IH show ?case
    by (simp add: page_invariant_def status_frame(1)) blast
next
  case (connection_toggled a t render reply n connect)
  have "connectedServers (toggleServerConnection render reply n connect t) \<noteq> {}
          \<Longrightarrow> connectedServers t \<noteq> {} \<or> hasApiAccess t"
    using connection_frame(2) [of render reply n connect t] by auto
  with connection_toggled.IH show ?case
    by (simp add: page_invariant_def connection_frame(1)) blast
next
  case (tool_executed a t parse call toolId serverName toolName)
  then show ?case by (auto simp: page_invariant_def execute_frame)
next
  case (panels_changed a t ps)
  then show ?case by (auto simp: page_invariant_def)
next
  case (all_connected a t render batch a' t')
  note fr = connect_all_frame [OF all_connected.hyps(2)]
  have "connectedServers t' \<noteq> {} \<Longrightarrow> connectedServers t \<noteq> {} \<or> mcpApi_keys a \<noteq> None"
    using fr(6) by auto
  with all_connected.IH show ?case
    by (simp add: page_invariant_def fr(1-5)) blast
next
  case (history_loaded a t clock)
  then show ?case by (auto simp: page_invariant_def loadChatHistory_frame)
next
  case (message_begun a t now)
  then show ?case
    using begin_frame(2) [of "config t" now a] by (simp add: page_invariant_def begin_frame(1)) metis
next
  case (message_finished a t now connect_error answer message)
  then show ?case by (auto simp: page_invariant_def finish_frame finished_turn_is_idle)
next
  case (text_typed a t typed)
  then show ?case by (auto simp: page_invariant_def)
next
  case (selection_changed a t provider model)
  then show ?case by (auto simp: page_invariant_def)
next
  case (key_saved a t table provider key)
  then show ?case by (auto simp: page_invariant_def)
qed

lemma connected_server_has_api_access:
  "reachable (a, t) \<Longrightarrow> n \<in> connectedServers t \<Longrightarrow> hasApiAccess t"
  using reachable_invariant [of "(a, t)"] by (auto simp: page_invariant_def)

lemma turn_in_progress_has_elements:
  "reachable (a, t) \<Longrightarrow> isProcessing a \<Longrightarrow> userInput a \<noteq> None \<and> sendButton a \<noteq> None"
  using reachable_invariant [of "(a, t)"] by (auto simp: page_invariant_def)

end
